theory Spec2Isabelle
  imports Main "HOL-Library.Word"
begin

section \<open>JavaScript strings\<close>

text \<open>
  A JavaScript string is a sequence of UTF-16 code units. String literals of the source are
  ASCII and are written with \<open>str\<close>.
\<close>

type_synonym code_unit = "16 word"

type_synonym jsstring = "code_unit list"

definition str :: "string \<Rightarrow> jsstring" where
  "str s = map of_char s"

text \<open>\<open>String.prototype.startsWith(searchString)\<close>.\<close>

definition startsWith :: "jsstring \<Rightarrow> jsstring \<Rightarrow> bool" where
  "startsWith s searchString = (take (length searchString) s = searchString)"

text \<open>
  \<open>String.prototype.indexOf(searchString)\<close>: the smallest index at which
  \<open>searchString\<close> occurs, or \<open>-1\<close>. \<open>StringIndexOf s searchValue k\<close> searches the
  suffix \<open>s\<close> that starts at index \<open>k\<close> of the whole string.
\<close>

fun StringIndexOf :: "jsstring \<Rightarrow> jsstring \<Rightarrow> int \<Rightarrow> int" where
  "StringIndexOf [] searchValue k = (if searchValue = [] then k else - 1)"
| "StringIndexOf (c # cs) searchValue k =
     (if startsWith (c # cs) searchValue then k else StringIndexOf cs searchValue (k + 1))"

definition indexOf :: "jsstring \<Rightarrow> jsstring \<Rightarrow> int" where
  "indexOf s searchString = StringIndexOf s searchString 0"

text \<open>
  \<open>String.prototype.substring(start)\<close>: the start index is clamped to the range from 0 to
  the length of the string.
\<close>

definition substring :: "jsstring \<Rightarrow> int \<Rightarrow> jsstring" where
  "substring s start = drop (nat (min (max start 0) (int (length s)))) s"

section \<open>encodeURIComponent and decodeURIComponent\<close>

text \<open>
  The two built-in functions follow the abstract operations \<open>Encode\<close> and \<open>Decode\<close> of
  ECMA-262 (section "URI Handling Functions"). Both throw \<open>URIError\<close>, which is the only
  error value here. Code points and octets are natural numbers.
\<close>

datatype uri_error = URIError

text \<open>
  The set of code units that \<open>encodeURIComponent\<close> leaves alone: the ASCII word
  characters and \<open>-.!~*'()\<close>.
\<close>

definition uriUnescaped :: "code_unit \<Rightarrow> bool" where
  "uriUnescaped C \<longleftrightarrow>
     C \<in> set (str ''ABCDEFGHIJKLMNOPQRSTUVWXYZabcdefghijklmnopqrstuvwxyz0123456789_-.!~*'()'')"

definition isLeadingSurrogate :: "code_unit \<Rightarrow> bool" where
  "isLeadingSurrogate C \<longleftrightarrow> 0xD800 \<le> C \<and> C \<le> 0xDBFF"

definition isTrailingSurrogate :: "code_unit \<Rightarrow> bool" where
  "isTrailingSurrogate C \<longleftrightarrow> 0xDC00 \<le> C \<and> C \<le> 0xDFFF"

definition UTF16SurrogatePairToCodePoint :: "code_unit \<Rightarrow> code_unit \<Rightarrow> nat" where
  "UTF16SurrogatePairToCodePoint lead trail =
     (unat lead - 0xD800) * 0x400 + (unat trail - 0xDC00) + 0x10000"

text \<open>
  \<open>CodePointAt\<close> at the head of a string: the code point, the number of code units it
  takes, and whether it is an unpaired surrogate.
\<close>

fun CodePointAt :: "jsstring \<Rightarrow> nat \<times> nat \<times> bool" where
  "CodePointAt [] = (0, 0, True)"
| "CodePointAt (first # rest) =
     (if \<not> isLeadingSurrogate first \<and> \<not> isTrailingSurrogate first then (unat first, 1, False)
      else if isTrailingSurrogate first \<or> rest = [] then (unat first, 1, True)
      else if \<not> isTrailingSurrogate (hd rest) then (unat first, 1, True)
      else (UTF16SurrogatePairToCodePoint first (hd rest), 2, False))"

definition UTF16EncodeCodePoint :: "nat \<Rightarrow> jsstring" where
  "UTF16EncodeCodePoint cp =
     (if cp \<le> 0xFFFF then [of_nat cp]
      else [of_nat ((cp - 0x10000) div 0x400 + 0xD800),
            of_nat ((cp - 0x10000) mod 0x400 + 0xDC00)])"

text \<open>The UTF-8 transformation of a code point into one to four octets.\<close>

definition utf8_encode :: "nat \<Rightarrow> nat list" where
  "utf8_encode cp =
     (if cp < 0x80 then [cp]
      else if cp < 0x800 then [0xC0 + cp div 0x40, 0x80 + cp mod 0x40]
      else if cp < 0x10000 then
        [0xE0 + cp div 0x1000, 0x80 + cp div 0x40 mod 0x40, 0x80 + cp mod 0x40]
      else
        [0xF0 + cp div 0x40000, 0x80 + cp div 0x1000 mod 0x40,
         0x80 + cp div 0x40 mod 0x40, 0x80 + cp mod 0x40])"

definition hexDigit :: "nat \<Rightarrow> code_unit" where
  "hexDigit d = str ''0123456789ABCDEF'' ! d"

text \<open>An octet as \<open>%XX\<close>, two uppercase hexadecimal digits.\<close>

definition percentEscape :: "nat \<Rightarrow> jsstring" where
  "percentEscape octet = [0x25, hexDigit (octet div 16), hexDigit (octet mod 16)]"

fun Encode :: "jsstring \<Rightarrow> uri_error + jsstring" where
  "Encode [] = Inr []"
| "Encode (C # rest) =
     (if uriUnescaped C then
        (case Encode rest of Inl e \<Rightarrow> Inl e | Inr R \<Rightarrow> Inr (C # R))
      else
        (case CodePointAt (C # rest) of (cp, count, unpaired) \<Rightarrow>
           if unpaired then Inl URIError
           else (case Encode (drop (count - 1) rest) of
                   Inl e \<Rightarrow> Inl e
                 | Inr R \<Rightarrow> Inr (concat (map percentEscape (utf8_encode cp)) @ R))))"

definition encodeURIComponent :: "jsstring \<Rightarrow> uri_error + jsstring" where
  "encodeURIComponent uriComponent = Encode uriComponent"

definition hexValue :: "code_unit \<Rightarrow> nat option" where
  "hexValue c =
     (if 0x30 \<le> c \<and> c \<le> 0x39 then Some (unat c - 0x30)
      else if 0x41 \<le> c \<and> c \<le> 0x46 then Some (unat c - 0x41 + 10)
      else if 0x61 \<le> c \<and> c \<le> 0x66 then Some (unat c - 0x61 + 10)
      else None)"

text \<open>
  \<open>ParseHexOctet\<close> reads the two code units at the head of the string as hexadecimal
  digits; \<open>None\<close> when there are fewer than two or one is not a digit.
\<close>

fun ParseHexOctet :: "jsstring \<Rightarrow> nat option" where
  "ParseHexOctet (h1 # h2 # rest) =
     (case hexValue h1 of None \<Rightarrow> None
      | Some a \<Rightarrow> (case hexValue h2 of None \<Rightarrow> None | Some b \<Rightarrow> Some (16 * a + b)))"
| "ParseHexOctet _ = None"

text \<open>The number of leading 1 bits of an octet (5 stands for "more than four").\<close>

definition leadingOnes :: "nat \<Rightarrow> nat" where
  "leadingOnes B =
     (if B < 0x80 then 0 else if B < 0xC0 then 1 else if B < 0xE0 then 2
      else if B < 0xF0 then 3 else if B < 0xF8 then 4 else 5)"

text \<open>The \<open>j\<close> escapes \<open>%XX\<close> that must follow the first octet of a multi-octet sequence.\<close>

fun continuationBytes :: "nat \<Rightarrow> jsstring \<Rightarrow> nat list option" where
  "continuationBytes 0 s = Some []"
| "continuationBytes (Suc j) [] = None"
| "continuationBytes (Suc j) (C # rest) =
     (if C \<noteq> 0x25 then None
      else (case ParseHexOctet rest of None \<Rightarrow> None
            | Some b \<Rightarrow> map_option ((#) b) (continuationBytes j (drop 2 rest))))"

fun utf8_value :: "nat \<Rightarrow> nat list \<Rightarrow> nat option" where
  "utf8_value v [] = Some v"
| "utf8_value v (c # cs) =
     (if 0x80 \<le> c \<and> c < 0xC0 then utf8_value (v * 0x40 + (c - 0x80)) cs else None)"

text \<open>
  The code point of a multi-octet sequence with first octet \<open>B\<close> and continuation octets
  \<open>cs\<close>, or \<open>None\<close> when the octets are not the valid UTF-8 encoding of a code point
  (a continuation octet outside \<open>80..BF\<close>, an overlong form, a surrogate, a value above
  \<open>10FFFF\<close>).
\<close>

definition utf8_decode :: "nat \<Rightarrow> nat list \<Rightarrow> nat option" where
  "utf8_decode B cs =
     (let n = Suc (length cs);
          lead = (if n = 2 then B - 0xC0 else if n = 3 then B - 0xE0 else B - 0xF0);
          least = (if n = 2 then 0x80 else if n = 3 then 0x800 else 0x10000)
      in case utf8_value lead cs of None \<Rightarrow> None
         | Some V \<Rightarrow>
             if V < least \<or> 0x10FFFF < V \<or> (0xD800 \<le> V \<and> V \<le> 0xDFFF) then None
             else Some V)"

fun Decode :: "jsstring \<Rightarrow> uri_error + jsstring" where
  "Decode [] = Inr []"
| "Decode (C # rest) =
     (if C \<noteq> 0x25 then
        (case Decode rest of Inl e \<Rightarrow> Inl e | Inr R \<Rightarrow> Inr (C # R))
      else
        (case ParseHexOctet rest of None \<Rightarrow> Inl URIError
         | Some B \<Rightarrow>
             let n = leadingOnes B in
             if n = 0 then
               (case Decode (drop 2 rest) of Inl e \<Rightarrow> Inl e | Inr R \<Rightarrow> Inr (of_nat B # R))
             else if n = 1 \<or> 4 < n then Inl URIError
             else
               (case continuationBytes (n - 1) (drop 2 rest) of None \<Rightarrow> Inl URIError
                | Some Octets \<Rightarrow>
                    (case utf8_decode B Octets of None \<Rightarrow> Inl URIError
                     | Some V \<Rightarrow>
                         (case Decode (drop (2 + 3 * (n - 1)) rest) of Inl e \<Rightarrow> Inl e
                          | Inr R \<Rightarrow> Inr (UTF16EncodeCodePoint V @ R))))))"

definition decodeURIComponent :: "jsstring \<Rightarrow> uri_error + jsstring" where
  "decodeURIComponent encodedURIComponent = Decode encodedURIComponent"

section \<open>Requests, responses and headers\<close>

text \<open>
  A header list keeps the order and the duplicates of its entries; header names compare
  without regard to ASCII case.
\<close>

type_synonym Headers = "(jsstring \<times> jsstring) list"

definition byteLowercase :: "jsstring \<Rightarrow> jsstring" where
  "byteLowercase s = map (\<lambda>c. if 0x41 \<le> c \<and> c \<le> 0x5A then c + 0x20 else c) s"

definition sameName :: "jsstring \<Rightarrow> jsstring \<Rightarrow> bool" where
  "sameName a b \<longleftrightarrow> byteLowercase a = byteLowercase b"

text \<open>\<open>Headers.prototype.has\<close>, \<open>delete\<close> and \<open>set\<close>.\<close>

definition Headers_has :: "Headers \<Rightarrow> jsstring \<Rightarrow> bool" where
  "Headers_has list name \<longleftrightarrow> (\<exists>h \<in> set list. sameName (fst h) name)"

definition Headers_delete :: "Headers \<Rightarrow> jsstring \<Rightarrow> Headers" where
  "Headers_delete list name = filter (\<lambda>h. \<not> sameName (fst h) name) list"

fun Headers_set :: "Headers \<Rightarrow> jsstring \<Rightarrow> jsstring \<Rightarrow> Headers" where
  "Headers_set [] name value = [(name, value)]"
| "Headers_set (h # list) name value =
     (if sameName (fst h) name then (fst h, value) # Headers_delete list name
      else h # Headers_set list name value)"

text \<open>
  \<open>Headers.prototype.get\<close>: the values of all entries of that name, joined by a comma and
  a space; \<open>None\<close> (JavaScript's \<open>null\<close>) when there is none.
\<close>

fun joinValues :: "jsstring list \<Rightarrow> jsstring" where
  "joinValues [] = []"
| "joinValues [v] = v"
| "joinValues (v # vs) = v @ str '', '' @ joinValues vs"

definition Headers_get :: "Headers \<Rightarrow> jsstring \<Rightarrow> jsstring option" where
  "Headers_get list name =
     (case filter (\<lambda>h. sameName (fst h) name) list of
        [] \<Rightarrow> None
      | h # hs \<Rightarrow> Some (joinValues (map snd (h # hs))))"

text \<open>
  A body is absent, a string given by the handler, or a stream that the handler passes on
  without looking at it (\<open>'s\<close> is the type of what a stream carries).
\<close>

datatype 's Body = Null | Text jsstring | Stream 's

text \<open>
  The part of \<open>new URL(request.url)\<close> that the handlers read. The request record holds
  the URL as the platform has parsed it, so \<open>url_pathname\<close> is \<open>url.pathname\<close> of the
  source.
\<close>

record URL =
  url_hostname :: jsstring
  url_pathname :: jsstring

record 's Request =
  req_url :: URL
  req_method :: jsstring
  req_headers :: Headers
  req_body :: "'s Body"

text \<open>
  The arguments of \<open>new Request(targetUrl, {method, headers, body, redirect})\<close>, and, when
  the constructor accepts them, the request built from them.
\<close>

record 's ProxyRequest =
  pr_url :: jsstring
  pr_method :: jsstring
  pr_headers :: Headers
  pr_body :: "'s Body"
  pr_redirect :: jsstring

record 's Response =
  resp_status :: nat
  resp_headers :: Headers
  resp_body :: "'s Body"

text \<open>An error object that is thrown, with its \<open>message\<close> property.\<close>

datatype js_error = Error (message: jsstring)

text \<open>
  What the handlers take from the platform:
  \<^item> \<open>Request_error\<close>: the \<open>TypeError\<close> that \<open>new Request\<close> throws on its arguments, if
    it throws (it does on a target that does not parse as a URL, such as \<open>http://\<close>);
  \<^item> \<open>fetch\<close>: the upstream response, or the error that \<open>fetch\<close> throws;
  \<^item> the \<open>RangeError\<close> and the \<open>TypeError\<close> of \<open>new Response\<close> (their messages differ
    between platforms).
\<close>

record 's Platform =
  Request_error :: "'s ProxyRequest \<Rightarrow> js_error option"
  fetch :: "'s ProxyRequest \<Rightarrow> js_error + 's Response"
  status_RangeError :: js_error
  null_body_TypeError :: js_error

text \<open>
  The first argument of \<open>new Response\<close>: a string, or the \<open>body\<close> property of another
  response (a stream or \<open>null\<close>).
\<close>

datatype 's BodyInit = StringInit jsstring | BodyOf "'s Body"

text \<open>
  \<open>new Response(body, {status, headers})\<close> as the Fetch standard initialises a response:
  a status outside 200..599 is a \<open>RangeError\<close>; a body together with a null body status
  is a \<open>TypeError\<close>; a string body brings the header
  \<open>Content-Type: text/plain;charset=UTF-8\<close> unless the headers given have a
  \<open>Content-Type\<close>. The status text of a response is not part of the model.
\<close>

definition new_Response ::
  "'s Platform \<Rightarrow> 's BodyInit \<Rightarrow> nat \<Rightarrow> Headers \<Rightarrow> js_error + 's Response" where
  "new_Response platform bodyInit status headers =
     (let body = (case bodyInit of StringInit s \<Rightarrow> Text s | BodyOf b \<Rightarrow> b);
          type = (case bodyInit of
                    StringInit s \<Rightarrow> Some (str ''text/plain;charset=UTF-8'')
                  | BodyOf b \<Rightarrow> None)
      in
      if \<not> (200 \<le> status \<and> status \<le> 599) then Inl (status_RangeError platform)
      else if body \<noteq> Null \<and> status \<in> {101, 103, 204, 205, 304}
        then Inl (null_body_TypeError platform)
      else
        Inr \<lparr>resp_status = status,
             resp_headers =
               (case type of
                  None \<Rightarrow> headers
                | Some t \<Rightarrow>
                    if Headers_has headers (str ''Content-Type'') then headers
                    else headers @ [(str ''Content-Type'', t)]),
             resp_body = body\<rparr>)"

text \<open>
  What one call of a handler does: it returns a response or throws (\<open>result\<close>; \<open>Inl\<close> is
  an error that leaves the handler); \<open>constructed\<close> lists the arguments it has given to
  \<open>new Request\<close>, \<open>fetched\<close> the requests it has passed to \<open>fetch\<close>, and
  \<open>console_error\<close> what it has written with \<open>console.error\<close>.
\<close>

record 's Outcome =
  result :: "js_error + 's Response"
  constructed :: "'s ProxyRequest list"
  fetched :: "'s ProxyRequest list"
  console_error :: "(jsstring \<times> js_error) list"

text \<open>A handler that returns \<open>new Response(...)\<close> without having built or sent a request.\<close>

definition respond :: "js_error + 's Response \<Rightarrow> 's Outcome" where
  "respond r = \<lparr>result = r, constructed = [], fetched = [], console_error = []\<rparr>"

section \<open>The worker with the /proxx/ prefix (src/worker.js)\<close>

definition worker_createRootResponse :: "'s Platform \<Rightarrow> jsstring \<Rightarrow> js_error + 's Response" where
  \<open>worker_createRootResponse platform hostname =
     (let htmlContent = str ''
    <!DOCTYPE html>
    <html lang="en">
    <head>
        <meta charset="UTF-8">
        <meta name="viewport" content="width=device-width, initial-scale=1.0">
        <title>KENOS PROXX Root by ig0</title>
        <script src="https://cdn.tailwindcss.com"></script>
        <style>
          body { background-color: black; font-family: sans-serif; color: white; display: flex; align-items: center; justify-content: center; height: 100vh; margin: 0; }
          .card { background-color: #1a1a1a; padding: 2rem; border-radius: 0.5rem; border: 1px solid white; text-align: center; }
        </style>
    </head>
    <body>
        <div class="card">
            <h1 class="text-3xl font-bold mb-4">KENOS PROXX Service Root</h1>
            <p class="text-sm text-gray-400 mb-6 uppercase tracking-widest font-semibold">by ig0</p>
            <p class="mb-6">This path is for worker routing only.</p>
            <p>Please return to the main homepage to use the PROXX application.</p>
            <a href="https://'' @ hostname @ str ''/" class="mt-4 inline-block bg-white text-black font-semibold py-2 px-4 rounded hover:bg-gray-200 transition">Go to Homepage</a>
        </div>
    </body>
    </html>
  ''
      in new_Response platform (StringInit htmlContent) 200
           [(str ''Content-Type'', str ''text/html'')])\<close>

text \<open>
  \<open>new Request\<close> stands before the \<open>try\<close> block, so an error it throws leaves the
  handler. \<open>attempt\<close> is the \<open>try\<close> block: \<open>Inl\<close> is what the \<open>catch\<close> receives, from
  \<open>fetch\<close> or from \<open>new Response(response.body, response)\<close>.
\<close>

definition worker_handleRequest :: "'s Platform \<Rightarrow> 's Request \<Rightarrow> 's Outcome" where
  "worker_handleRequest platform request =
     (let url = req_url request;
          proxyPrefix = str ''/proxx/'';
          urlStartIndex = indexOf (url_pathname url) proxyPrefix
      in
      if urlStartIndex = - 1
      then respond (worker_createRootResponse platform (url_hostname url))
      else
        let encodedTargetUrl =
              substring (url_pathname url) (urlStartIndex + int (length proxyPrefix))
        in
        case decodeURIComponent encodedTargetUrl of
          Inl e \<Rightarrow>
            respond (new_Response platform (StringInit (str ''Invalid URL encoding.'')) 400 [])
        | Inr targetUrl \<Rightarrow>
            if targetUrl = [] \<or>
               (\<not> startsWith targetUrl (str ''http://'') \<and>
                \<not> startsWith targetUrl (str ''https://''))
            then
              respond (new_Response platform (StringInit (str ''Invalid target URL format.'')) 400 [])
            else
              let init =
                    \<lparr>pr_url = targetUrl,
                     pr_method = req_method request,
                     pr_headers = req_headers request,
                     pr_body = req_body request,
                     pr_redirect = str ''follow''\<rparr>
              in
              (case Request_error platform init of
                Some e \<Rightarrow>
                  \<lparr>result = Inl e, constructed = [init], fetched = [], console_error = []\<rparr>
              | None \<Rightarrow>
                  let proxyRequest = init;
                      attempt =
                        (case fetch platform proxyRequest of
                          Inl error \<Rightarrow> Inl error
                        | Inr response \<Rightarrow>
                            (case new_Response platform (BodyOf (resp_body response))
                                    (resp_status response) (resp_headers response) of
                              Inl error \<Rightarrow> Inl error
                            | Inr newResponse \<Rightarrow>
                                let newResponse = newResponse
                                      \<lparr>resp_headers :=
                                         Headers_delete (resp_headers newResponse)
                                           (str ''content-security-policy'')\<rparr>;
                                    newResponse = newResponse
                                      \<lparr>resp_headers :=
                                         Headers_delete (resp_headers newResponse)
                                           (str ''x-frame-options'')\<rparr>
                                in Inr newResponse))
                  in
                  (case attempt of
                    Inr newResponse \<Rightarrow>
                      \<lparr>result = Inr newResponse, constructed = [init],
                       fetched = [proxyRequest], console_error = []\<rparr>
                  | Inl error \<Rightarrow>
                      \<lparr>result =
                         new_Response platform
                           (StringInit (str ''Failed to fetch target URL: '' @ message error)) 500 [],
                       constructed = [init], fetched = [proxyRequest],
                       console_error = [(str ''PROXX Fetch Error:'', error)]\<rparr>)))"

section \<open>The worker behind a service binding (the second variant of the source)\<close>

definition binding_createRootResponse :: "'s Platform \<Rightarrow> js_error + 's Response" where
  \<open>binding_createRootResponse platform =
     (let htmlContent = str ''
    <!DOCTYPE html>
    <html lang="en">
    <head>
        <meta charset="UTF-8">
        <meta name="viewport" content="width=device-width, initial-scale=1.0">
        <title>KENOS PROXX Root by ig0</title>
        <script src="https://cdn.tailwindcss.com"></script>
        <style>
          body { background-color: black; font-family: sans-serif; color: white; display: flex; align-items: center; justify-content: center; height: 100vh; margin: 0; }
          .card { background-color: #1a1a1a; padding: 2rem; border-radius: 0.5rem; border: 1px solid white; text-align: center; }
        </style>
    </head>
    <body>
        <div class="card">
            <h1 class="text-3xl font-bold mb-4">KENOS PROXX Service Root</h1>
            <p class="text-sm text-gray-400 mb-6 uppercase tracking-widest font-semibold">by ig0</p>
            <p class="mb-6">This path is for worker routing only. When accessed directly, it cannot parse a URL.</p>
            <p>Please use the main Pages URL to enter your target site.</p>
        </div>
    </body>
    </html>
  ''
      in new_Response platform (StringInit htmlContent) 200
           [(str ''Content-Type'', str ''text/html'')])\<close>

definition binding_handleRequest :: "'s Platform \<Rightarrow> 's Request \<Rightarrow> 's Outcome" where
  "binding_handleRequest platform request =
     (let url = req_url request;
          path = url_pathname url
      in
      if length path \<le> 1 then respond (binding_createRootResponse platform)
      else
        let encodedTargetUrl = substring path 1
        in
        case decodeURIComponent encodedTargetUrl of
          Inl e \<Rightarrow>
            respond (new_Response platform (StringInit (str ''Invalid URL encoding.'')) 400 [])
        | Inr targetUrl \<Rightarrow>
            if targetUrl = [] \<or>
               (\<not> startsWith targetUrl (str ''http://'') \<and>
                \<not> startsWith targetUrl (str ''https://''))
            then
              respond (new_Response platform (StringInit (str ''Invalid target URL format. Must start with http:// or https://'')) 400 [])
            else
              let init =
                    \<lparr>pr_url = targetUrl,
                     pr_method = req_method request,
                     pr_headers = req_headers request,
                     pr_body = req_body request,
                     pr_redirect = str ''follow''\<rparr>
              in
              (case Request_error platform init of
                Some e \<Rightarrow>
                  \<lparr>result = Inl e, constructed = [init], fetched = [], console_error = []\<rparr>
              | None \<Rightarrow>
                  let proxyRequest = init;
                      attempt =
                        (case fetch platform proxyRequest of
                          Inl error \<Rightarrow> Inl error
                        | Inr response \<Rightarrow>
                            (case new_Response platform (BodyOf (resp_body response))
                                    (resp_status response) (resp_headers response) of
                              Inl error \<Rightarrow> Inl error
                            | Inr newResponse \<Rightarrow>
                                let newResponse = newResponse
                                      \<lparr>resp_headers :=
                                         Headers_delete (resp_headers newResponse)
                                           (str ''content-security-policy'')\<rparr>;
                                    newResponse = newResponse
                                      \<lparr>resp_headers :=
                                         Headers_delete (resp_headers newResponse)
                                           (str ''x-frame-options'')\<rparr>;
                                    newResponse = newResponse
                                      \<lparr>resp_headers :=
                                         Headers_set (resp_headers newResponse)
                                           (str ''Access-Control-Allow-Origin'') (str ''*'')\<rparr>
                                in Inr newResponse))
                  in
                  (case attempt of
                    Inr newResponse \<Rightarrow>
                      \<lparr>result = Inr newResponse, constructed = [init],
                       fetched = [proxyRequest], console_error = []\<rparr>
                  | Inl error \<Rightarrow>
                      \<lparr>result =
                         new_Response platform
                           (StringInit (str ''Failed to fetch target URL: '' @ message error)) 500 [],
                       constructed = [init], fetched = [proxyRequest],
                       console_error = [(str ''PROXX Fetch Error:'', error)]\<rparr>)))"

section \<open>Notions used to state the properties\<close>

text \<open>
  In the worker with the prefix, the segment that holds the target is what follows the first
  occurrence of \<open>/proxx/\<close> in the path.
\<close>

definition prefixMarkerSegment :: "jsstring \<Rightarrow> jsstring \<Rightarrow> bool" where
  "prefixMarkerSegment path seg \<longleftrightarrow>
     (\<exists>pre. path = pre @ str ''/proxx/'' @ seg \<and>
        (\<forall>pre' post'. path = pre' @ str ''/proxx/'' @ post' \<longrightarrow> length pre \<le> length pre'))"

text \<open>
  In the worker behind the binding, it is what follows the first code unit of a path of
  length two or more.
\<close>

definition barePathSegment :: "jsstring \<Rightarrow> jsstring \<Rightarrow> bool" where
  "barePathSegment path seg \<longleftrightarrow> (\<exists>c. path = c # seg) \<and> seg \<noteq> []"

text \<open>
  A string is well formed when it has no unpaired surrogate
  (\<open>String.prototype.isWellFormed\<close>). Every URL is such a string.
\<close>

fun isWellFormed :: "jsstring \<Rightarrow> bool" where
  "isWellFormed [] = True"
| "isWellFormed (C # rest) =
     (case CodePointAt (C # rest) of (cp, count, unpaired) \<Rightarrow>
        \<not> unpaired \<and> isWellFormed (drop (count - 1) rest))"

text \<open>
  The arguments that a handler gives to \<open>new Request\<close> for a request and a decoded target.
\<close>

definition proxy_init :: "'s Request \<Rightarrow> jsstring \<Rightarrow> 's ProxyRequest" where
  "proxy_init request targetUrl =
     \<lparr>pr_url = targetUrl, pr_method = req_method request,
      pr_headers = req_headers request, pr_body = req_body request,
      pr_redirect = str ''follow''\<rparr>"

text \<open>
  Platforms and a request for concrete runs: a \<open>Request\<close> constructor that accepts all
  arguments and one that throws \<open>e\<close> on the target \<open>t\<close>; an upstream that answers every
  request with \<open>r\<close> and one that throws \<open>e\<close>; a GET request for a path.
\<close>

definition accepts_all :: "'s ProxyRequest \<Rightarrow> js_error option" where
  "accepts_all init = None"

definition rejects_target :: "jsstring \<Rightarrow> js_error \<Rightarrow> 's ProxyRequest \<Rightarrow> js_error option" where
  "rejects_target t e init = (if pr_url init = t then Some e else None)"

definition upstream_answers :: "'s Response \<Rightarrow> 's ProxyRequest \<Rightarrow> js_error + 's Response" where
  "upstream_answers r proxyRequest = Inr r"

definition upstream_fails :: "js_error \<Rightarrow> 's ProxyRequest \<Rightarrow> js_error + 's Response" where
  "upstream_fails e proxyRequest = Inl e"

definition sample_platform ::
  "('s ProxyRequest \<Rightarrow> js_error option) \<Rightarrow> ('s ProxyRequest \<Rightarrow> js_error + 's Response) \<Rightarrow>
   's Platform" where
  "sample_platform check upstream =
     \<lparr>Request_error = check, fetch = upstream,
      status_RangeError = Error (str ''status out of range''),
      null_body_TypeError = Error (str ''null body status with a body'')\<rparr>"

definition get_request :: "jsstring \<Rightarrow> nat list Request" where
  "get_request path =
     \<lparr>req_url = \<lparr>url_hostname = str ''kenos.example'', url_pathname = path\<rparr>,
      req_method = str ''GET'', req_headers = [], req_body = Null\<rparr>"

section \<open>Facts about indexOf\<close>

lemma StringIndexOf_lower: "StringIndexOf s p k = - 1 \<or> k \<le> StringIndexOf s p k"
proof (induction s arbitrary: k)
  case Nil
  show ?case by simp
next
  case (Cons c cs)
  from Cons [of "k + 1"] show ?case by auto
qed

lemma StringIndexOf_shift:
  "0 \<le> k \<Longrightarrow> StringIndexOf s p k = (if StringIndexOf s p 0 = - 1 then - 1 else StringIndexOf s p 0 + k)"
proof (induction s arbitrary: k)
  case Nil
  then show ?case by simp
next
  case (Cons c cs)
  have a: "StringIndexOf cs p (k + 1) = (if StringIndexOf cs p 0 = - 1 then - 1 else StringIndexOf cs p 0 + (k + 1))"
    using Cons.IH [of "k + 1"] Cons.prems by simp
  have b: "StringIndexOf cs p 1 = (if StringIndexOf cs p 0 = - 1 then - 1 else StringIndexOf cs p 0 + 1)"
    using Cons.IH [of 1] by simp
  have c: "StringIndexOf cs p 0 = - 1 \<or> 0 \<le> StringIndexOf cs p 0"
    by (rule StringIndexOf_lower)
  show ?case using a b c Cons.prems by auto
qed

lemma indexOf_Nil: "indexOf [] p = (if p = [] then 0 else - 1)"
  by (simp add: indexOf_def)

lemma indexOf_Cons:
  "indexOf (c # cs) p =
     (if startsWith (c # cs) p then 0
      else if indexOf cs p = - 1 then - 1 else indexOf cs p + 1)"
  using StringIndexOf_shift [of 1 cs p] by (simp add: indexOf_def)

lemma indexOf_range: "indexOf s p = - 1 \<or> (0 \<le> indexOf s p \<and> indexOf s p \<le> int (length s))"
  by (induction s) (auto simp: indexOf_Nil indexOf_Cons)

lemma startsWith_append: "startsWith (p @ post) p"
  by (simp add: startsWith_def)

lemma startsWith_iff: "startsWith s p \<longleftrightarrow> (\<exists>post. s = p @ post)"
  unfolding startsWith_def
  by (metis append_eq_conv_conj append_take_drop_id)

text \<open>indexOf finds an occurrence when there is one, and the first one.\<close>

lemma indexOf_absent_iff:
  "indexOf s p = - 1 \<longleftrightarrow> \<not> (\<exists>pre post. s = pre @ p @ post)"
proof (induction s)
  case Nil
  show ?case by (auto simp: indexOf_Nil)
next
  case (Cons c cs)
  have r: "indexOf cs p = - 1 \<or> 0 \<le> indexOf cs p"
    using indexOf_range [of cs p] by auto
  show ?case
  proof (cases "startsWith (c # cs) p")
    case True
    then obtain post where "c # cs = [] @ p @ post"
      by (auto simp: startsWith_iff)
    then have "\<exists>pre post. c # cs = pre @ p @ post" by blast
    with True show ?thesis by (simp add: indexOf_Cons)
  next
    case False
    have "(\<exists>pre post. c # cs = pre @ p @ post) \<longleftrightarrow> (\<exists>pre post. cs = pre @ p @ post)"
    proof
      assume "\<exists>pre post. c # cs = pre @ p @ post"
      then obtain pre post where e: "c # cs = pre @ p @ post" by blast
      show "\<exists>pre post. cs = pre @ p @ post"
      proof (cases pre)
        case Nil
        with e False show ?thesis by (simp add: startsWith_iff)
      next
        case (Cons a pre')
        with e have "cs = pre' @ p @ post" by simp
        then show ?thesis by blast
      qed
    next
      assume "\<exists>pre post. cs = pre @ p @ post"
      then obtain pre post where "cs = pre @ p @ post" by blast
      then have "c # cs = (c # pre) @ p @ post" by simp
      then show "\<exists>pre post. c # cs = pre @ p @ post" by blast
    qed
    with False Cons.IH r show ?thesis by (auto simp: indexOf_Cons)
  qed
qed

lemma indexOf_first:
  assumes "s = pre @ p @ post"
    and "\<And>pre' post'. s = pre' @ p @ post' \<Longrightarrow> length pre \<le> length pre'"
  shows "indexOf s p = int (length pre)"
  using assms
proof (induction pre arbitrary: s)
  case Nil
  then have st: "startsWith s p" by (simp add: startsWith_append)
  show ?case
  proof (cases s)
    case Nil
    with \<open>s = [] @ p @ post\<close> show ?thesis by (simp add: indexOf_Nil)
  next
    case (Cons c cs)
    with st show ?thesis by (simp add: indexOf_Cons)
  qed
next
  case (Cons a pre)
  then have s: "s = a # (pre @ p @ post)" by simp
  have ns: "\<not> startsWith s p"
  proof
    assume "startsWith s p"
    then obtain post' where "s = [] @ p @ post'" by (auto simp: startsWith_iff)
    from Cons.prems(2) [OF this] show False by simp
  qed
  have "indexOf (pre @ p @ post) p = int (length pre)"
  proof (rule Cons.IH [OF refl])
    fix pre' post'
    assume "pre @ p @ post = pre' @ p @ post'"
    then have "s = (a # pre') @ p @ post'" using s by simp
    from Cons.prems(2) [OF this] show "length pre \<le> length pre'" by simp
  qed
  with ns s show ?case by (simp add: indexOf_Cons)
qed

section \<open>Decoding what encodeURIComponent produces\<close>

text \<open>\<open>leadingOnes\<close> is the number of leading 1 bits of an octet, read off bits 7 to 3.\<close>

lemma leadingOnes_bits:
  assumes "B < 256"
  shows "leadingOnes B =
     (if \<not> bit B 7 then 0 else if \<not> bit B 6 then 1 else if \<not> bit B 5 then 2
      else if \<not> bit B 4 then 3 else if \<not> bit B 3 then 4 else 5)"
proof -
  have b: "bit B 7 \<longleftrightarrow> odd (B div 128)" "bit B 6 \<longleftrightarrow> odd (B div 64)"
    "bit B 5 \<longleftrightarrow> odd (B div 32)" "bit B 4 \<longleftrightarrow> odd (B div 16)"
    "bit B 3 \<longleftrightarrow> odd (B div 8)"
    by (simp_all add: bit_iff_odd)
  consider "B < 128" | "128 \<le> B" "B < 192" | "192 \<le> B" "B < 224" | "224 \<le> B" "B < 240"
    | "240 \<le> B" "B < 248" | "248 \<le> B"
    by linarith
  then show ?thesis
  proof cases
    case 1
    then have "B div 128 = 0" by simp
    with 1 show ?thesis by (simp add: b leadingOnes_def)
  next
    case 2
    then have "B div 128 = 1" "B div 64 = 2" by arith+
    with 2 show ?thesis by (simp add: b leadingOnes_def)
  next
    case 3
    then have "B div 128 = 1" "B div 64 = 3" "B div 32 = 6" by arith+
    with 3 show ?thesis by (simp add: b leadingOnes_def)
  next
    case 4
    then have "B div 128 = 1" "B div 64 = 3" "B div 32 = 7" "B div 16 = 14" by arith+
    with 4 show ?thesis by (simp add: b leadingOnes_def)
  next
    case 5
    then have "B div 128 = 1" "B div 64 = 3" "B div 32 = 7" "B div 16 = 15" "B div 8 = 30"
      by arith+
    with 5 show ?thesis by (simp add: b leadingOnes_def)
  next
    case 6
    with assms have "B div 128 = 1" "B div 64 = 3" "B div 32 = 7" "B div 16 = 15" "B div 8 = 31"
      by arith+
    with 6 show ?thesis by (simp add: b leadingOnes_def)
  qed
qed

lemma hexValue_hexDigit: "d < 16 \<Longrightarrow> hexValue (hexDigit d) = Some d"
proof -
  assume "d < 16"
  then have "d = 0 \<or> d = 1 \<or> d = 2 \<or> d = 3 \<or> d = 4 \<or> d = 5 \<or> d = 6 \<or> d = 7 \<or>
             d = 8 \<or> d = 9 \<or> d = 10 \<or> d = 11 \<or> d = 12 \<or> d = 13 \<or> d = 14 \<or> d = 15"
    by arith
  then show ?thesis
    by (elim disjE) (simp_all add: hexDigit_def hexValue_def str_def)
qed

lemma ParseHexOctet_escape:
  assumes "b < 256"
  shows "ParseHexOctet (hexDigit (b div 16) # hexDigit (b mod 16) # r) = Some b"
proof -
  have "b div 16 < 16" using assms by arith
  moreover have "b mod 16 < 16" by simp
  ultimately show ?thesis by (simp add: hexValue_hexDigit)
qed

lemma uriUnescaped_not_percent: "uriUnescaped C \<Longrightarrow> C \<noteq> 0x25"
  by (auto simp: uriUnescaped_def str_def)

lemma Decode_unescaped:
  "uriUnescaped C \<Longrightarrow>
     Decode (C # r) = (case Decode r of Inl e \<Rightarrow> Inl e | Inr R \<Rightarrow> Inr (C # R))"
  by (simp add: uriUnescaped_not_percent)

lemma length_percentEscapes:
  "length (concat (map percentEscape bs)) = 3 * length bs"
  by (induction bs) (simp_all add: percentEscape_def)

lemma continuationBytes_escapes:
  "\<forall>b \<in> set bs. b < 256 \<Longrightarrow>
     continuationBytes (length bs) (concat (map percentEscape bs) @ r) = Some bs"
  by (induction bs) (simp_all add: percentEscape_def ParseHexOctet_escape del: ParseHexOctet.simps)

lemma drop_percentEscapes:
  "drop (3 * length bs) (concat (map percentEscape bs) @ r) = r"
  using length_percentEscapes [of bs] by simp

lemma utf8_two:
  assumes "0x80 \<le> cp" and "cp < 0x800"
  shows "utf8_encode cp = [0xC0 + cp div 0x40, 0x80 + cp mod 0x40]"
    and "leadingOnes (0xC0 + cp div 0x40) = 2"
    and "0xC0 + cp div 0x40 < 256"
    and "utf8_decode (0xC0 + cp div 0x40) [0x80 + cp mod 0x40] = Some cp"
proof -
  have d: "cp div 0x40 < 0x20" using assms by arith
  show "utf8_encode cp = [0xC0 + cp div 0x40, 0x80 + cp mod 0x40]"
    using assms by (simp add: utf8_encode_def)
  show "leadingOnes (0xC0 + cp div 0x40) = 2"
    using d by (simp add: leadingOnes_def)
  show "0xC0 + cp div 0x40 < 256" using d by simp
  have m: "cp mod 0x40 < 0x40" by simp
  have v: "cp div 0x40 * 0x40 + cp mod 0x40 = cp" by simp
  show "utf8_decode (0xC0 + cp div 0x40) [0x80 + cp mod 0x40] = Some cp"
    using assms m v by (simp add: utf8_decode_def)
qed

lemma utf8_three:
  assumes "0x800 \<le> cp" and "cp < 0x10000" and "\<not> (0xD800 \<le> cp \<and> cp \<le> 0xDFFF)"
  shows "utf8_encode cp =
           [0xE0 + cp div 0x1000, 0x80 + cp div 0x40 mod 0x40, 0x80 + cp mod 0x40]"
    and "leadingOnes (0xE0 + cp div 0x1000) = 3"
    and "0xE0 + cp div 0x1000 < 256"
    and "utf8_decode (0xE0 + cp div 0x1000) [0x80 + cp div 0x40 mod 0x40, 0x80 + cp mod 0x40]
           = Some cp"
proof -
  have d: "cp div 0x1000 < 0x10" using assms by arith
  show "utf8_encode cp =
           [0xE0 + cp div 0x1000, 0x80 + cp div 0x40 mod 0x40, 0x80 + cp mod 0x40]"
    using assms by (simp add: utf8_encode_def)
  show "leadingOnes (0xE0 + cp div 0x1000) = 3"
    using d by (simp add: leadingOnes_def)
  show "0xE0 + cp div 0x1000 < 256" using d by simp
  have h: "cp div 0x1000 = cp div 0x40 div 0x40"
    by (simp add: div_mult2_eq [symmetric])
  have "cp div 0x40 div 0x40 * 0x40 + cp div 0x40 mod 0x40 = cp div 0x40" by simp
  then have v1: "cp div 0x1000 * 0x40 + cp div 0x40 mod 0x40 = cp div 0x40"
    unfolding h .
  have v2: "cp div 0x40 * 0x40 + cp mod 0x40 = cp" by simp
  have "utf8_value (cp div 0x1000) [0x80 + cp div 0x40 mod 0x40, 0x80 + cp mod 0x40] = Some cp"
    by (simp add: v1 v2)
  then show "utf8_decode (0xE0 + cp div 0x1000)
          [0x80 + cp div 0x40 mod 0x40, 0x80 + cp mod 0x40] = Some cp"
    using assms by (simp add: utf8_decode_def)
qed

lemma utf8_four:
  assumes "0x10000 \<le> cp" and "cp < 0x110000"
  shows "utf8_encode cp =
           [0xF0 + cp div 0x40000, 0x80 + cp div 0x1000 mod 0x40,
            0x80 + cp div 0x40 mod 0x40, 0x80 + cp mod 0x40]"
    and "leadingOnes (0xF0 + cp div 0x40000) = 4"
    and "0xF0 + cp div 0x40000 < 256"
    and "utf8_decode (0xF0 + cp div 0x40000)
           [0x80 + cp div 0x1000 mod 0x40, 0x80 + cp div 0x40 mod 0x40, 0x80 + cp mod 0x40]
           = Some cp"
proof -
  have d: "cp div 0x40000 < 0x8" using assms by arith
  show "utf8_encode cp =
           [0xF0 + cp div 0x40000, 0x80 + cp div 0x1000 mod 0x40,
            0x80 + cp div 0x40 mod 0x40, 0x80 + cp mod 0x40]"
    using assms by (simp add: utf8_encode_def)
  show "leadingOnes (0xF0 + cp div 0x40000) = 4"
    using d by (simp add: leadingOnes_def)
  show "0xF0 + cp div 0x40000 < 256" using d by simp
  have h1: "cp div 0x1000 = cp div 0x40 div 0x40"
    by (simp add: div_mult2_eq [symmetric])
  have h2: "cp div 0x40000 = cp div 0x1000 div 0x40"
    by (simp add: div_mult2_eq [symmetric])
  have "cp div 0x1000 div 0x40 * 0x40 + cp div 0x1000 mod 0x40 = cp div 0x1000" by simp
  then have v0: "cp div 0x40000 * 0x40 + cp div 0x1000 mod 0x40 = cp div 0x1000"
    unfolding h2 .
  have "cp div 0x40 div 0x40 * 0x40 + cp div 0x40 mod 0x40 = cp div 0x40" by simp
  then have v1: "cp div 0x1000 * 0x40 + cp div 0x40 mod 0x40 = cp div 0x40"
    unfolding h1 .
  have v2: "cp div 0x40 * 0x40 + cp mod 0x40 = cp" by simp
  have "utf8_value (cp div 0x40000)
          [0x80 + cp div 0x1000 mod 0x40, 0x80 + cp div 0x40 mod 0x40, 0x80 + cp mod 0x40]
        = Some cp"
    by (simp add: v0 v1 v2)
  then show "utf8_decode (0xF0 + cp div 0x40000)
           [0x80 + cp div 0x1000 mod 0x40, 0x80 + cp div 0x40 mod 0x40, 0x80 + cp mod 0x40]
           = Some cp"
    using assms by (simp add: utf8_decode_def)
qed

lemma utf8_multi:
  assumes "0x80 \<le> cp" and "cp < 0x110000" and "\<not> (0xD800 \<le> cp \<and> cp \<le> 0xDFFF)"
  shows "\<exists>B cs. utf8_encode cp = B # cs \<and> leadingOnes B = Suc (length cs) \<and>
           cs \<noteq> [] \<and> length cs \<le> 3 \<and> B < 256 \<and> (\<forall>b \<in> set cs. b < 256) \<and>
           utf8_decode B cs = Some cp"
proof -
  have m: "x mod 0x40 < (128::nat)" for x :: nat
    using mod_less_divisor [of 64 x] by linarith
  consider "cp < 0x800" | "0x800 \<le> cp" "cp < 0x10000" | "0x10000 \<le> cp" by linarith
  then show ?thesis
  proof cases
    case 1
    from utf8_two [OF assms(1) 1] show ?thesis by (simp add: m)
  next
    case 2
    from utf8_three [OF 2 assms(3)] show ?thesis by (simp add: m)
  next
    case 3
    from utf8_four [OF 3 assms(2)] show ?thesis by (simp add: m)
  qed
qed

lemma of_nat_unat_code_unit: "of_nat (unat (C :: code_unit)) = C"
  by simp

lemma unat_code_unit_less: "unat (C :: code_unit) < 0x10000"
  using unsigned_less [of C, where 'a = nat] by simp

lemma isLeadingSurrogate_unat:
  "isLeadingSurrogate C \<longleftrightarrow> 0xD800 \<le> unat C \<and> unat C \<le> 0xDBFF"
  by (simp add: isLeadingSurrogate_def word_le_nat_alt)

lemma isTrailingSurrogate_unat:
  "isTrailingSurrogate C \<longleftrightarrow> 0xDC00 \<le> unat C \<and> unat C \<le> 0xDFFF"
  by (simp add: isTrailingSurrogate_def word_le_nat_alt)

lemma UTF16_single:
  assumes "\<not> isLeadingSurrogate C" and "\<not> isTrailingSurrogate C"
  shows "unat C < 0x110000" and "\<not> (0xD800 \<le> unat C \<and> unat C \<le> 0xDFFF)"
    and "UTF16EncodeCodePoint (unat C) = [C]"
proof -
  have l: "unat C < 0x10000" by (rule unat_code_unit_less)
  then show "unat C < 0x110000" by simp
  show "\<not> (0xD800 \<le> unat C \<and> unat C \<le> 0xDFFF)"
    using assms unfolding isLeadingSurrogate_unat isTrailingSurrogate_unat by arith
  show "UTF16EncodeCodePoint (unat C) = [C]"
    using l by (simp add: UTF16EncodeCodePoint_def)
qed

lemma UTF16_pair:
  assumes "isLeadingSurrogate lead" and "isTrailingSurrogate trail"
  shows "0x10000 \<le> UTF16SurrogatePairToCodePoint lead trail"
    and "UTF16SurrogatePairToCodePoint lead trail < 0x110000"
    and "UTF16EncodeCodePoint (UTF16SurrogatePairToCodePoint lead trail) = [lead, trail]"
proof -
  define a where "a = unat lead - 0xD800"
  define b where "b = unat trail - 0xDC00"
  have a: "a < 0x400" and ua: "a + 0xD800 = unat lead"
    using assms(1) unfolding isLeadingSurrogate_unat a_def by arith+
  have b: "b < 0x400" and ub: "b + 0xDC00 = unat trail"
    using assms(2) unfolding isTrailingSurrogate_unat b_def by arith+
  have cp: "UTF16SurrogatePairToCodePoint lead trail = a * 0x400 + b + 0x10000"
    by (simp add: UTF16SurrogatePairToCodePoint_def a_def b_def)
  show "0x10000 \<le> UTF16SurrogatePairToCodePoint lead trail"
    unfolding cp by simp
  show "UTF16SurrogatePairToCodePoint lead trail < 0x110000"
    unfolding cp using a b by arith
  have d: "(a * 0x400 + b) div 0x400 = a" using b by simp
  have m: "(a * 0x400 + b) mod 0x400 = b" using b by simp
  have "UTF16EncodeCodePoint (a * 0x400 + b + 0x10000)
        = [of_nat (a + 0xD800), of_nat (b + 0xDC00)]"
    unfolding UTF16EncodeCodePoint_def using d m by simp
  then show "UTF16EncodeCodePoint (UTF16SurrogatePairToCodePoint lead trail) = [lead, trail]"
    unfolding cp ua ub by simp
qed

lemma CodePointAt_paired:
  assumes "CodePointAt (C # rest) = (cp, count, False)"
  shows "cp < 0x110000" and "\<not> (0xD800 \<le> cp \<and> cp \<le> 0xDFFF)"
    and "UTF16EncodeCodePoint cp @ drop (count - 1) rest = C # rest"
proof -
  consider
      (single) "\<not> isLeadingSurrogate C" "\<not> isTrailingSurrogate C" "cp = unat C" "count = 1"
    | (pair) trail ds where "isLeadingSurrogate C" "rest = trail # ds" "isTrailingSurrogate trail"
        "cp = UTF16SurrogatePairToCodePoint C trail" "count = 2"
    using assms by (cases rest) (auto split: if_splits)
  then have "cp < 0x110000 \<and> \<not> (0xD800 \<le> cp \<and> cp \<le> 0xDFFF) \<and>
    UTF16EncodeCodePoint cp @ drop (count - 1) rest = C # rest"
  proof cases
    case single
    with UTF16_single [of C] show ?thesis by simp
  next
    case pair
    with UTF16_pair [of C trail] show ?thesis by simp
  qed
  then show "cp < 0x110000" and "\<not> (0xD800 \<le> cp \<and> cp \<le> 0xDFFF)"
    and "UTF16EncodeCodePoint cp @ drop (count - 1) rest = C # rest"
    by simp_all
qed

lemma Decode_ascii_escape:
  assumes "cp < 0x80"
  shows "Decode (concat (map percentEscape (utf8_encode cp)) @ r) =
           (case Decode r of Inl e \<Rightarrow> Inl e | Inr R \<Rightarrow> Inr (UTF16EncodeCodePoint cp @ R))"
proof -
  have b: "cp < 256" using assms by simp
  have l: "leadingOnes cp = 0" using assms by (simp add: leadingOnes_def)
  have u: "utf8_encode cp = [cp]" using assms by (simp add: utf8_encode_def)
  have v: "UTF16EncodeCodePoint cp = [of_nat cp]"
    using assms by (simp add: UTF16EncodeCodePoint_def)
  show ?thesis
    unfolding u v
    by (simp add: percentEscape_def ParseHexOctet_escape [OF b] l del: ParseHexOctet.simps
          cong: sum.case_cong)
qed

lemma Decode_multi_escape:
  assumes "leadingOnes B = Suc (length cs)" and "cs \<noteq> []" and "length cs \<le> 3"
    and "B < 256" and "\<forall>b \<in> set cs. b < 256" and "utf8_decode B cs = Some cp"
  shows "Decode (concat (map percentEscape (B # cs)) @ r) =
           (case Decode r of Inl e \<Rightarrow> Inl e | Inr R \<Rightarrow> Inr (UTF16EncodeCodePoint cp @ R))"
proof -
  let ?tail = "concat (map percentEscape cs) @ r"
  have k: "drop (2 + k) (a # b # xs) = drop k xs" for k and a b :: code_unit and xs
    by (simp add: numeral_2_eq_2)
  have c: "continuationBytes (length cs) ?tail = Some cs"
    using assms(5) by (rule continuationBytes_escapes)
  have d: "drop (3 * length cs) ?tail = r"
    by (rule drop_percentEscapes)
  have "Decode (0x25 # hexDigit (B div 16) # hexDigit (B mod 16) # ?tail) =
           (case Decode r of Inl e \<Rightarrow> Inl e | Inr R \<Rightarrow> Inr (UTF16EncodeCodePoint cp @ R))"
    using assms(2,3)
    by (simp add: ParseHexOctet_escape [OF assms(4)] assms(1) c d k assms(6) Let_def
          del: ParseHexOctet.simps drop_append)
  then show ?thesis by (simp add: percentEscape_def)
qed

lemma Decode_escaped_code_point:
  assumes "cp < 0x110000" and "\<not> (0xD800 \<le> cp \<and> cp \<le> 0xDFFF)"
  shows "Decode (concat (map percentEscape (utf8_encode cp)) @ r) =
           (case Decode r of Inl e \<Rightarrow> Inl e | Inr R \<Rightarrow> Inr (UTF16EncodeCodePoint cp @ R))"
proof (cases "cp < 0x80")
  case True
  then show ?thesis by (rule Decode_ascii_escape)
next
  case False
  then have "0x80 \<le> cp" by simp
  from utf8_multi [OF this assms] obtain B cs where
    e: "utf8_encode cp = B # cs" and p: "leadingOnes B = Suc (length cs)" "cs \<noteq> []"
      "length cs \<le> 3" "B < 256" "\<forall>b \<in> set cs. b < 256" "utf8_decode B cs = Some cp"
    by blast
  show ?thesis unfolding e by (rule Decode_multi_escape [OF p])
qed

lemma Decode_Encode:
  "Encode s = Inr e \<Longrightarrow> Decode e = Inr s"
proof (induction s arbitrary: e rule: Encode.induct)
  case 1
  then show ?case by simp
next
  case (2 C rest)
  show ?case
  proof (cases "uriUnescaped C")
    case True
    with "2.prems" obtain R where R: "Encode rest = Inr R" and e: "e = C # R"
      by (auto split: sum.splits)
    from "2.IH"(1) [OF True R] have "Decode R = Inr rest" .
    then show ?thesis unfolding e by (simp add: uriUnescaped_not_percent [OF True])
  next
    case False
    obtain cp count unpaired where c: "CodePointAt (C # rest) = (cp, count, unpaired)"
      by (cases "CodePointAt (C # rest)")
    from "2.prems" False c have u: "\<not> unpaired"
      by (auto split: sum.splits if_splits)
    from "2.prems" False c u obtain R where R: "Encode (drop (count - 1) rest) = Inr R"
      and e: "e = concat (map percentEscape (utf8_encode cp)) @ R"
      by (auto split: sum.splits)
    have ih: "Decode R = Inr (drop (count - 1) rest)"
      using "2.IH"(2) [OF False c [symmetric] _ u R] by simp
    from c u have c': "CodePointAt (C # rest) = (cp, count, False)" by simp
    show ?thesis
      unfolding e Decode_escaped_code_point [OF CodePointAt_paired(1,2) [OF c']]
      using ih CodePointAt_paired(3) [OF c'] by simp
  qed
qed

lemma uriUnescaped_not_surrogate:
  "uriUnescaped C \<Longrightarrow> \<not> isLeadingSurrogate C \<and> \<not> isTrailingSurrogate C"
  by (auto simp: uriUnescaped_def str_def isLeadingSurrogate_def isTrailingSurrogate_def)

lemma Encode_wellFormed: "isWellFormed s \<Longrightarrow> \<exists>e. Encode s = Inr e"
proof (induction s rule: Encode.induct)
  case 1
  show ?case by simp
next
  case (2 C rest)
  show ?case
  proof (cases "uriUnescaped C")
    case True
    from uriUnescaped_not_surrogate [OF True] "2.prems" have "isWellFormed rest" by simp
    from "2.IH"(1) [OF True this] True show ?thesis by auto
  next
    case False
    obtain cp count unpaired where c: "CodePointAt (C # rest) = (cp, count, unpaired)"
      by (cases "CodePointAt (C # rest)")
    from "2.prems" c have u: "\<not> unpaired" and w: "isWellFormed (drop (count - 1) rest)"
      by simp_all
    from "2.IH"(2) [OF False c [symmetric] _ u w] obtain R
      where "Encode (drop (count - 1) rest) = Inr R" by auto
    with False c u show ?thesis by simp
  qed
qed

text \<open>A string without surrogate code units, an ASCII string for one, is well formed.\<close>

lemma isWellFormed_no_surrogates:
  "\<forall>C \<in> set s. \<not> isLeadingSurrogate C \<and> \<not> isTrailingSurrogate C \<Longrightarrow> isWellFormed s"
  by (induction s) simp_all

lemma isWellFormed_ascii:
  assumes "\<forall>C \<in> set s. C < 0x80"
  shows "isWellFormed s"
proof (rule isWellFormed_no_surrogates, rule ballI)
  fix C assume "C \<in> set s"
  with assms have "C < 0x80" by blast
  then have "unat C < 0x80" by (simp add: word_less_nat_alt)
  then show "\<not> isLeadingSurrogate C \<and> \<not> isTrailingSurrogate C"
    by (simp add: isLeadingSurrogate_unat isTrailingSurrogate_unat)
qed

lemma Encode_only_wellFormed: "Encode s = Inr e \<Longrightarrow> isWellFormed s"
proof (induction s arbitrary: e rule: Encode.induct)
  case 1
  show ?case by simp
next
  case (2 C rest)
  show ?case
  proof (cases "uriUnescaped C")
    case True
    with "2.prems" obtain R where R: "Encode rest = Inr R"
      by (auto split: sum.splits)
    from "2.IH"(1) [OF True R] uriUnescaped_not_surrogate [OF True] show ?thesis by simp
  next
    case False
    obtain cp count unpaired where c: "CodePointAt (C # rest) = (cp, count, unpaired)"
      by (cases "CodePointAt (C # rest)")
    from "2.prems" False c have u: "\<not> unpaired"
      by (auto split: sum.splits if_splits)
    from "2.prems" False c u obtain R where R: "Encode (drop (count - 1) rest) = Inr R"
      by (auto split: sum.splits)
    from "2.IH"(2) [OF False c [symmetric] _ u R] c u show ?thesis by simp
  qed
qed

lemma Encode_nonempty: "Encode (C # rest) = Inr e \<Longrightarrow> e \<noteq> []"
proof -
  assume a: "Encode (C # rest) = Inr e"
  show "e \<noteq> []"
  proof (cases "uriUnescaped C")
    case True
    with a show ?thesis by (auto split: sum.splits)
  next
    case False
    obtain cp count unpaired where c: "CodePointAt (C # rest) = (cp, count, unpaired)"
      by (cases "CodePointAt (C # rest)")
    have "utf8_encode cp \<noteq> []" by (simp add: utf8_encode_def)
    then obtain b bs where "utf8_encode cp = b # bs" by (cases "utf8_encode cp") auto
    with a False c show ?thesis
      by (auto simp: percentEscape_def split: sum.splits if_splits)
  qed
qed

text \<open>
  Decoding fails on every string in which some \<open>%\<close> is not followed by two
  hexadecimal digits.
\<close>

lemma hexValue_percent: "hexValue 0x25 = None"
  by (simp add: hexValue_def)

lemma ParseHexOctet_Some:
  "ParseHexOctet s = Some B \<Longrightarrow> \<exists>h1 h2 rest. s = h1 # h2 # rest \<and> hexValue h1 \<noteq> None \<and> hexValue h2 \<noteq> None"
  by (cases s rule: ParseHexOctet.cases) (auto split: option.splits)

lemma ParseHexOctet_before_percent:
  assumes "ParseHexOctet (x @ 0x25 # b) = Some B"
  shows "\<exists>h1 h2 x'. x = h1 # h2 # x'"
proof -
  from ParseHexOctet_Some [OF assms] obtain h1 h2 rest where
    s: "x @ 0x25 # b = h1 # h2 # rest" and h: "hexValue h1 \<noteq> None" "hexValue h2 \<noteq> None"
    by blast
  show ?thesis
  proof (cases x)
    case Nil
    with s h hexValue_percent show ?thesis by auto
  next
    case (Cons a x1)
    show ?thesis
    proof (cases x1)
      case Nil
      with Cons s h hexValue_percent show ?thesis by auto
    next
      case (Cons a' x2)
      with \<open>x = a # x1\<close> show ?thesis by blast
    qed
  qed
qed

lemma continuationBytes_within:
  "continuationBytes j (x @ 0x25 # b) = Some octs \<Longrightarrow> ParseHexOctet b = None \<Longrightarrow>
     3 * j \<le> length x"
proof (induction j arbitrary: x octs)
  case 0
  show ?case by simp
next
  case (Suc j)
  show ?case
  proof (cases x)
    case Nil
    with Suc.prems show ?thesis by simp
  next
    case (Cons C x')
    with Suc.prems obtain B where B: "ParseHexOctet (x' @ 0x25 # b) = Some B"
      by (auto split: if_splits option.splits)
    from ParseHexOctet_before_percent [OF B] obtain h1 h2 x'' where x': "x' = h1 # h2 # x''"
      by blast
    from Suc.prems(1) Cons B x' obtain octs' where
      "continuationBytes j (x'' @ 0x25 # b) = Some octs'"
      by (auto split: if_splits simp del: ParseHexOctet.simps)
    from Suc.IH [OF this Suc.prems(2)] Cons x' show ?thesis by simp
  qed
qed

lemma Decode_malformed_escape:
  "ParseHexOctet b = None \<Longrightarrow> Decode (a @ 0x25 # b) = Inl URIError"
proof (induction a rule: length_induct)
  case (1 a)
  note IH = "1.IH" [rule_format, OF _ "1.prems"]
  show ?case
  proof (cases a)
    case Nil
    with "1.prems" show ?thesis by simp
  next
    case (Cons C a')
    show ?thesis
    proof (cases "C = 0x25")
      case False
      have "Decode (a' @ 0x25 # b) = Inl URIError"
        by (rule IH) (simp add: Cons)
      with False Cons show ?thesis by simp
    next
      case True
      show ?thesis
      proof (cases "ParseHexOctet (a' @ 0x25 # b)")
        case None
        with True Cons show ?thesis by simp
      next
        case (Some B)
        from ParseHexOctet_before_percent [OF Some] obtain h1 h2 a''
          where a': "a' = h1 # h2 # a''" by blast
        have s: "Decode (a'' @ 0x25 # b) = Inl URIError"
          by (rule IH) (simp add: Cons a')
        have k: "drop (2 + k) (h1 # h2 # xs) = drop k xs" for k xs
          by (simp add: numeral_2_eq_2)
        have c: "Decode (drop (2 + 3 * (leadingOnes B - 1)) (h1 # h2 # a'' @ 0x25 # b))
                 = Inl URIError"
          if "continuationBytes (leadingOnes B - 1) (a'' @ 0x25 # b) = Some octs" for octs
        proof -
          from continuationBytes_within [OF that "1.prems"]
          have l: "3 * (leadingOnes B - 1) \<le> length a''" .
          have "Decode (drop (3 * (leadingOnes B - 1)) a'' @ 0x25 # b) = Inl URIError"
            by (rule IH) (simp add: Cons a')
          with l show ?thesis unfolding k by simp
        qed
        have "Decode (0x25 # h1 # h2 # a'' @ 0x25 # b) = Inl URIError"
          unfolding Decode.simps(2) [of "0x25"] using Some [unfolded a'] s c
          by (auto simp: Let_def simp del: ParseHexOctet.simps Decode.simps
                split: option.splits sum.splits)
        with True Cons a' show ?thesis by simp
      qed
    qed
  qed
qed

section \<open>What the handlers extract from the path\<close>

lemma length_marker: "length (str ''/proxx/'') = 7"
  by (simp add: str_def)

lemma prefixMarkerSegment_substring:
  assumes "prefixMarkerSegment path seg"
  shows "indexOf path (str ''/proxx/'') \<noteq> - 1"
    and "substring path (indexOf path (str ''/proxx/'') + int (length (str ''/proxx/''))) = seg"
proof -
  from assms obtain pre where p: "path = pre @ str ''/proxx/'' @ seg"
    and f: "\<And>pre' post'. path = pre' @ str ''/proxx/'' @ post' \<Longrightarrow> length pre \<le> length pre'"
    unfolding prefixMarkerSegment_def by blast
  have i: "indexOf path (str ''/proxx/'') = int (length pre)"
    using p f by (rule indexOf_first)
  show "indexOf path (str ''/proxx/'') \<noteq> - 1" using i by simp
  have "nat (min (max (int (length pre) + int (length (str ''/proxx/''))) 0) (int (length path)))
        = length pre + length (str ''/proxx/'')"
    using p by simp
  then show "substring path (indexOf path (str ''/proxx/'') + int (length (str ''/proxx/''))) = seg"
    unfolding substring_def i using p by simp
qed

lemma barePathSegment_substring:
  assumes "barePathSegment path seg"
  shows "\<not> length path \<le> 1" and "substring path 1 = seg"
  using assms by (auto simp: barePathSegment_def substring_def)

lemma prefixMarkerSegment_head: "prefixMarkerSegment (str ''/proxx/'' @ seg) seg"
  unfolding prefixMarkerSegment_def by (rule exI [of _ "[]"]) simp

lemma prefixMarkerSegment_iff:
  "prefixMarkerSegment path seg \<longleftrightarrow>
     indexOf path (str ''/proxx/'') \<noteq> - 1 \<and>
     seg = substring path (indexOf path (str ''/proxx/'') + int (length (str ''/proxx/'')))"
proof
  assume "prefixMarkerSegment path seg"
  from prefixMarkerSegment_substring [OF this]
  show "indexOf path (str ''/proxx/'') \<noteq> - 1 \<and>
     seg = substring path (indexOf path (str ''/proxx/'') + int (length (str ''/proxx/'')))"
    by simp
next
  let ?m = "str ''/proxx/''"
  assume a: "indexOf path ?m \<noteq> - 1 \<and>
     seg = substring path (indexOf path ?m + int (length ?m))"
  then have "\<exists>pre post. path = pre @ ?m @ post"
    by (simp add: indexOf_absent_iff)
  then have "\<exists>n pre post. path = pre @ ?m @ post \<and> length pre = n" by blast
  then obtain n where n: "\<exists>pre post. path = pre @ ?m @ post \<and> length pre = n"
    and least: "\<And>k. k < n \<Longrightarrow> \<not> (\<exists>pre post. path = pre @ ?m @ post \<and> length pre = k)"
    using exists_least_iff [of "\<lambda>n. \<exists>pre post. path = pre @ ?m @ post \<and> length pre = n"]
    by blast
  from n obtain pre post where p: "path = pre @ ?m @ post" and l: "length pre = n" by blast
  have f: "length pre \<le> length pre'" if "path = pre' @ ?m @ post'" for pre' post'
  proof (rule ccontr)
    assume "\<not> length pre \<le> length pre'"
    then have "length pre' < n" using l by simp
    from least [OF this] that show False by blast
  qed
  have s: "prefixMarkerSegment path post"
    unfolding prefixMarkerSegment_def using p f by blast
  from prefixMarkerSegment_substring(2) [OF s] a have "seg = post" by simp
  with s show "prefixMarkerSegment path seg" by simp
qed

lemma barePathSegment_iff:
  "barePathSegment path seg \<longleftrightarrow> \<not> length path \<le> 1 \<and> seg = substring path 1"
proof
  assume "barePathSegment path seg"
  from barePathSegment_substring [OF this]
  show "\<not> length path \<le> 1 \<and> seg = substring path 1" by simp
next
  assume a: "\<not> length path \<le> 1 \<and> seg = substring path 1"
  then obtain c d rest where "path = c # d # rest"
    by (cases path; cases "tl path") auto
  with a show "barePathSegment path seg"
    by (simp add: barePathSegment_def substring_def)
qed

lemma startsWith_nonempty: "p \<noteq> [] \<Longrightarrow> startsWith t p \<Longrightarrow> t \<noteq> []"
  by (auto simp: startsWith_def)

lemma valid_target_nonempty:
  "startsWith t (str ''http://'') \<or> startsWith t (str ''https://'') \<Longrightarrow> t \<noteq> []"
  by (auto simp: startsWith_def str_def)

lemma case_variant_rejected:
  assumes "(byteLowercase (take 7 t) = str ''http://'' \<and> take 7 t \<noteq> str ''http://'') \<or>
           (byteLowercase (take 8 t) = str ''https://'' \<and> take 8 t \<noteq> str ''https://'')"
  shows "\<not> startsWith t (str ''http://'')" and "\<not> startsWith t (str ''https://'')"
proof -
  have l7: "length (str ''http://'') = 7" and l8: "length (str ''https://'') = 8"
    by (simp_all add: str_def)
  have t78: "take 7 (take 8 t) = take 7 t" by simp
  have bl: "\<And>n s. take n (byteLowercase s) = byteLowercase (take n s)"
    by (simp add: byteLowercase_def take_map)
  have a: "take 7 (str ''https://'') \<noteq> str ''http://''"
    by (simp add: str_def)
  have lo7: "byteLowercase (str ''http://'') = str ''http://''"
    and lo8: "byteLowercase (str ''https://'') = str ''https://''"
    by (simp_all add: byteLowercase_def str_def)
  show "\<not> startsWith t (str ''http://'')"
  proof
    assume "startsWith t (str ''http://'')"
    then have h: "take 7 t = str ''http://''" by (simp add: startsWith_def l7)
    with assms lo7 have "byteLowercase (take 8 t) = str ''https://''" by auto
    then have "take 7 (byteLowercase (take 8 t)) = take 7 (str ''https://'')" by simp
    then have "byteLowercase (take 7 t) = take 7 (str ''https://'')"
      unfolding bl t78 .
    with h lo7 a show False by simp
  qed
  show "\<not> startsWith t (str ''https://'')"
  proof
    assume "startsWith t (str ''https://'')"
    then have h: "take 8 t = str ''https://''" by (simp add: startsWith_def l8)
    with assms lo8 have "byteLowercase (take 7 t) = str ''http://''" by auto
    then have "byteLowercase (take 7 (take 8 t)) = str ''http://''" by (simp only: t78)
    then have "take 7 (str ''https://'') = str ''http://''" 
      unfolding h bl [symmetric] lo8 .
    with a show False by simp
  qed
qed

section \<open>Facts about header lists\<close>

lemma sameName_refl: "sameName a a"
  by (simp add: sameName_def)

lemma sameName_sym: "sameName a b \<Longrightarrow> sameName b a"
  by (simp add: sameName_def)

lemma sameName_trans: "sameName a b \<Longrightarrow> sameName b c \<Longrightarrow> sameName a c"
  by (simp add: sameName_def)

lemma names_distinct:
  "\<not> sameName (str ''x-frame-options'') (str ''content-security-policy'')"
  "\<not> sameName (str ''Access-Control-Allow-Origin'') (str ''content-security-policy'')"
  "\<not> sameName (str ''Access-Control-Allow-Origin'') (str ''x-frame-options'')"
  by (simp_all add: sameName_def byteLowercase_def str_def)

lemma names_distinct2:
  "\<not> sameName (str ''content-security-policy'') (str ''x-frame-options'')"
  "\<not> sameName (str ''content-security-policy'') (str ''Access-Control-Allow-Origin'')"
  "\<not> sameName (str ''x-frame-options'') (str ''Access-Control-Allow-Origin'')"
  by (simp_all add: sameName_def byteLowercase_def str_def)

lemma Headers_has_delete: "\<not> Headers_has (Headers_delete list name) name"
  by (auto simp: Headers_has_def Headers_delete_def)

lemma Headers_has_delete_other:
  "Headers_has (Headers_delete list name) other \<Longrightarrow> Headers_has list other"
proof -
  assume "Headers_has (Headers_delete list name) other"
  then obtain h where h: "h \<in> set (Headers_delete list name)" and s: "sameName (fst h) other"
    unfolding Headers_has_def by blast
  from h have "h \<in> set list" by (simp add: Headers_delete_def)
  with s show ?thesis unfolding Headers_has_def by blast
qed

lemma Headers_get_delete_other:
  "\<not> sameName name other \<Longrightarrow> Headers_get (Headers_delete list name) other = Headers_get list other"
proof -
  assume n: "\<not> sameName name other"
  have "filter (\<lambda>h. sameName (fst h) other) (Headers_delete list name)
        = filter (\<lambda>h. sameName (fst h) other) list"
    unfolding Headers_delete_def filter_filter
  proof (rule filter_cong [OF refl])
    fix h assume "h \<in> set list"
    show "(\<not> sameName (fst h) name \<and> sameName (fst h) other) = sameName (fst h) other"
      using n sameName_sym sameName_trans by blast
  qed
  then show ?thesis by (simp add: Headers_get_def)
qed

lemma Headers_set_entries:
  "h \<in> set (Headers_set list name value) \<Longrightarrow>
     (h \<in> set list \<and> \<not> sameName (fst h) name) \<or> (sameName (fst h) name \<and> snd h = value)"
  by (induction list) (auto simp: Headers_delete_def sameName_refl split: if_splits)

lemma Headers_has_set_other:
  assumes "\<not> sameName name other" and "\<not> Headers_has list other"
  shows "\<not> Headers_has (Headers_set list name value) other"
proof
  assume "Headers_has (Headers_set list name value) other"
  then obtain h where h: "h \<in> set (Headers_set list name value)" and s: "sameName (fst h) other"
    by (auto simp: Headers_has_def)
  from Headers_set_entries [OF h] show False
  proof
    assume "h \<in> set list \<and> \<not> sameName (fst h) name"
    with s assms(2) show False by (auto simp: Headers_has_def)
  next
    assume "sameName (fst h) name \<and> snd h = value"
    with s assms(1) show False using sameName_sym sameName_trans by blast
  qed
qed

lemma filter_same_delete:
  "filter (\<lambda>h. sameName (fst h) name) (Headers_delete list name) = []"
  by (induction list) (auto simp: Headers_delete_def)

lemma filter_same_set:
  "\<exists>n. sameName n name \<and> filter (\<lambda>h. sameName (fst h) name) (Headers_set list name value) = [(n, value)]"
proof (induction list)
  case Nil
  show ?case by (auto simp: sameName_refl)
next
  case (Cons h list)
  show ?case
  proof (cases "sameName (fst h) name")
    case True
    then show ?thesis by (auto simp: filter_same_delete)
  next
    case False
    with Cons show ?thesis by auto
  qed
qed

lemma Headers_get_set: "Headers_get (Headers_set list name value) name = Some value"
proof -
  from filter_same_set [of name list "value"] obtain n
    where "filter (\<lambda>h. sameName (fst h) name) (Headers_set list name value) = [(n, value)]"
    by blast
  then show ?thesis by (simp add: Headers_get_def)
qed




section \<open>The branches of the two handlers\<close>

text \<open>What \<open>new Response\<close> gives for the arguments of the handlers.\<close>

lemma new_Response_string:
  "new_Response platform (StringInit s) 400 []
     = Inr \<lparr>resp_status = 400,
            resp_headers = [(str ''Content-Type'', str ''text/plain;charset=UTF-8'')],
            resp_body = Text s\<rparr>"
  "new_Response platform (StringInit s) 500 []
     = Inr \<lparr>resp_status = 500,
            resp_headers = [(str ''Content-Type'', str ''text/plain;charset=UTF-8'')],
            resp_body = Text s\<rparr>"
  "new_Response platform (StringInit s) 200 [(str ''Content-Type'', str ''text/html'')]
     = Inr \<lparr>resp_status = 200,
            resp_headers = [(str ''Content-Type'', str ''text/html'')],
            resp_body = Text s\<rparr>"
  by (simp_all add: new_Response_def Headers_has_def sameName_def)

lemma new_Response_range:
  "\<not> (200 \<le> status \<and> status \<le> 599) \<Longrightarrow>
     new_Response platform bodyInit status headers = Inl (status_RangeError platform)"
  by (simp add: new_Response_def)

lemma new_Response_body:
  assumes "200 \<le> status" and "status \<le> 599"
    and "body \<noteq> Null \<longrightarrow> status \<notin> {204, 205, 304}"
  shows "new_Response platform (BodyOf body) status headers
           = Inr \<lparr>resp_status = status, resp_headers = headers, resp_body = body\<rparr>"
  using assms by (auto simp: new_Response_def)

lemma new_Response_body_Inr:
  "new_Response platform (BodyOf body) status headers = Inr newResponse \<Longrightarrow>
     newResponse = \<lparr>resp_status = status, resp_headers = headers, resp_body = body\<rparr>"
  by (auto simp: new_Response_def split: if_splits)

lemma worker_createRootResponse_value:
  \<open>worker_createRootResponse platform hostname =
     Inr \<lparr>resp_status = 200,
          resp_headers = [(str ''Content-Type'', str ''text/html'')],
          resp_body = Text (str ''
    <!DOCTYPE html>
    <html lang="en">
    <head>
        <meta charset="UTF-8">
        <meta name="viewport" content="width=device-width, initial-scale=1.0">
        <title>KENOS PROXX Root by ig0</title>
        <script src="https://cdn.tailwindcss.com"></script>
        <style>
          body { background-color: black; font-family: sans-serif; color: white; display: flex; align-items: center; justify-content: center; height: 100vh; margin: 0; }
          .card { background-color: #1a1a1a; padding: 2rem; border-radius: 0.5rem; border: 1px solid white; text-align: center; }
        </style>
    </head>
    <body>
        <div class="card">
            <h1 class="text-3xl font-bold mb-4">KENOS PROXX Service Root</h1>
            <p class="text-sm text-gray-400 mb-6 uppercase tracking-widest font-semibold">by ig0</p>
            <p class="mb-6">This path is for worker routing only.</p>
            <p>Please return to the main homepage to use the PROXX application.</p>
            <a href="https://'' @ hostname @ str ''/" class="mt-4 inline-block bg-white text-black font-semibold py-2 px-4 rounded hover:bg-gray-200 transition">Go to Homepage</a>
        </div>
    </body>
    </html>
  '')\<rparr>\<close>
  by (simp add: worker_createRootResponse_def Let_def new_Response_string)

lemma binding_createRootResponse_value:
  \<open>binding_createRootResponse platform =
     Inr \<lparr>resp_status = 200,
          resp_headers = [(str ''Content-Type'', str ''text/html'')],
          resp_body = Text (str ''
    <!DOCTYPE html>
    <html lang="en">
    <head>
        <meta charset="UTF-8">
        <meta name="viewport" content="width=device-width, initial-scale=1.0">
        <title>KENOS PROXX Root by ig0</title>
        <script src="https://cdn.tailwindcss.com"></script>
        <style>
          body { background-color: black; font-family: sans-serif; color: white; display: flex; align-items: center; justify-content: center; height: 100vh; margin: 0; }
          .card { background-color: #1a1a1a; padding: 2rem; border-radius: 0.5rem; border: 1px solid white; text-align: center; }
        </style>
    </head>
    <body>
        <div class="card">
            <h1 class="text-3xl font-bold mb-4">KENOS PROXX Service Root</h1>
            <p class="text-sm text-gray-400 mb-6 uppercase tracking-widest font-semibold">by ig0</p>
            <p class="mb-6">This path is for worker routing only. When accessed directly, it cannot parse a URL.</p>
            <p>Please use the main Pages URL to enter your target site.</p>
        </div>
    </body>
    </html>
  '')\<rparr>\<close>
  by (simp add: binding_createRootResponse_def Let_def new_Response_string)

lemma worker_fallback:
  assumes "\<not> (\<exists>pre post. url_pathname (req_url request) = pre @ str ''/proxx/'' @ post)"
  shows "worker_handleRequest platform request =
           respond (worker_createRootResponse platform (url_hostname (req_url request)))"
proof -
  have "indexOf (url_pathname (req_url request)) (str ''/proxx/'') = - 1"
    using assms by (simp add: indexOf_absent_iff)
  then show ?thesis by (simp add: worker_handleRequest_def Let_def)
qed

lemma binding_fallback:
  assumes "length (url_pathname (req_url request)) \<le> 1"
  shows "binding_handleRequest platform request = respond (binding_createRootResponse platform)"
  using assms by (simp add: binding_handleRequest_def Let_def)

lemma worker_decode_error:
  assumes "prefixMarkerSegment (url_pathname (req_url request)) seg"
    and "decodeURIComponent seg = Inl e"
  shows "worker_handleRequest platform request =
           respond (Inr \<lparr>resp_status = 400,
               resp_headers = [(str ''Content-Type'', str ''text/plain;charset=UTF-8'')],
               resp_body = Text (str ''Invalid URL encoding.'')\<rparr>)"
  using prefixMarkerSegment_substring [OF assms(1)] assms(2)
  by (simp add: worker_handleRequest_def Let_def new_Response_string)

lemma worker_invalid_target:
  assumes "prefixMarkerSegment (url_pathname (req_url request)) seg"
    and "decodeURIComponent seg = Inr targetUrl"
    and "\<not> startsWith targetUrl (str ''http://'')"
    and "\<not> startsWith targetUrl (str ''https://'')"
  shows "worker_handleRequest platform request =
           respond (Inr \<lparr>resp_status = 400,
               resp_headers = [(str ''Content-Type'', str ''text/plain;charset=UTF-8'')],
               resp_body = Text (str ''Invalid target URL format.'')\<rparr>)"
  using prefixMarkerSegment_substring [OF assms(1)] assms(2-)
  by (simp add: worker_handleRequest_def Let_def new_Response_string)

lemma worker_constructed:
  assumes "prefixMarkerSegment (url_pathname (req_url request)) seg"
    and "decodeURIComponent seg = Inr targetUrl"
    and "startsWith targetUrl (str ''http://'') \<or> startsWith targetUrl (str ''https://'')"
  shows "constructed (worker_handleRequest platform request) = [proxy_init request targetUrl]"
  using prefixMarkerSegment_substring [OF assms(1)] assms(2-) valid_target_nonempty [OF assms(3)]
  by (auto simp: worker_handleRequest_def Let_def proxy_init_def split: option.splits sum.splits)

lemma worker_rejected:
  assumes "prefixMarkerSegment (url_pathname (req_url request)) seg"
    and "decodeURIComponent seg = Inr targetUrl"
    and "startsWith targetUrl (str ''http://'') \<or> startsWith targetUrl (str ''https://'')"
    and "Request_error platform (proxy_init request targetUrl) = Some e"
  shows "worker_handleRequest platform request =
           \<lparr>result = Inl e, constructed = [proxy_init request targetUrl], fetched = [],
            console_error = []\<rparr>"
  using prefixMarkerSegment_substring [OF assms(1)] assms(2-) valid_target_nonempty [OF assms(3)]
  by (auto simp: worker_handleRequest_def Let_def proxy_init_def new_Response_string)

lemma worker_fetch_throws:
  assumes "prefixMarkerSegment (url_pathname (req_url request)) seg"
    and "decodeURIComponent seg = Inr targetUrl"
    and "startsWith targetUrl (str ''http://'') \<or> startsWith targetUrl (str ''https://'')"
    and "Request_error platform (proxy_init request targetUrl) = None"
    and "fetch platform (proxy_init request targetUrl) = Inl error"
  shows "worker_handleRequest platform request =
           \<lparr>result =
              Inr \<lparr>resp_status = 500,
                   resp_headers = [(str ''Content-Type'', str ''text/plain;charset=UTF-8'')],
                   resp_body = Text (str ''Failed to fetch target URL: '' @ message error)\<rparr>,
            constructed = [proxy_init request targetUrl],
            fetched = [proxy_init request targetUrl],
            console_error = [(str ''PROXX Fetch Error:'', error)]\<rparr>"
  using prefixMarkerSegment_substring [OF assms(1)] assms(2-) valid_target_nonempty [OF assms(3)]
  by (auto simp: worker_handleRequest_def Let_def proxy_init_def new_Response_string)

lemma worker_rewrap_throws:
  assumes "prefixMarkerSegment (url_pathname (req_url request)) seg"
    and "decodeURIComponent seg = Inr targetUrl"
    and "startsWith targetUrl (str ''http://'') \<or> startsWith targetUrl (str ''https://'')"
    and "Request_error platform (proxy_init request targetUrl) = None"
    and "fetch platform (proxy_init request targetUrl) = Inr upstream"
    and "new_Response platform (BodyOf (resp_body upstream)) (resp_status upstream)
           (resp_headers upstream) = Inl error"
  shows "worker_handleRequest platform request =
           \<lparr>result =
              Inr \<lparr>resp_status = 500,
                   resp_headers = [(str ''Content-Type'', str ''text/plain;charset=UTF-8'')],
                   resp_body = Text (str ''Failed to fetch target URL: '' @ message error)\<rparr>,
            constructed = [proxy_init request targetUrl],
            fetched = [proxy_init request targetUrl],
            console_error = [(str ''PROXX Fetch Error:'', error)]\<rparr>"
  using prefixMarkerSegment_substring [OF assms(1)] assms(2-) valid_target_nonempty [OF assms(3)]
  by (auto simp: worker_handleRequest_def Let_def proxy_init_def new_Response_string)

lemma worker_passes:
  assumes "prefixMarkerSegment (url_pathname (req_url request)) seg"
    and "decodeURIComponent seg = Inr targetUrl"
    and "startsWith targetUrl (str ''http://'') \<or> startsWith targetUrl (str ''https://'')"
    and "Request_error platform (proxy_init request targetUrl) = None"
    and "fetch platform (proxy_init request targetUrl) = Inr upstream"
    and "new_Response platform (BodyOf (resp_body upstream)) (resp_status upstream)
           (resp_headers upstream) = Inr newResponse"
  shows "worker_handleRequest platform request =
           \<lparr>result =
              Inr (newResponse\<lparr>resp_headers := Headers_delete
                     (Headers_delete (resp_headers newResponse)
                        (str ''content-security-policy''))
                     (str ''x-frame-options'')\<rparr>),
            constructed = [proxy_init request targetUrl],
            fetched = [proxy_init request targetUrl],
            console_error = []\<rparr>"
  using prefixMarkerSegment_substring [OF assms(1)] assms(2-) valid_target_nonempty [OF assms(3)]
  by (auto simp: worker_handleRequest_def Let_def proxy_init_def new_Response_string)

lemma binding_decode_error:
  assumes "barePathSegment (url_pathname (req_url request)) seg"
    and "decodeURIComponent seg = Inl e"
  shows "binding_handleRequest platform request =
           respond (Inr \<lparr>resp_status = 400,
               resp_headers = [(str ''Content-Type'', str ''text/plain;charset=UTF-8'')],
               resp_body = Text (str ''Invalid URL encoding.'')\<rparr>)"
  using barePathSegment_substring [OF assms(1)] assms(2)
  by (simp add: binding_handleRequest_def Let_def new_Response_string)

lemma binding_invalid_target:
  assumes "barePathSegment (url_pathname (req_url request)) seg"
    and "decodeURIComponent seg = Inr targetUrl"
    and "\<not> startsWith targetUrl (str ''http://'')"
    and "\<not> startsWith targetUrl (str ''https://'')"
  shows "binding_handleRequest platform request =
           respond (Inr \<lparr>resp_status = 400,
               resp_headers = [(str ''Content-Type'', str ''text/plain;charset=UTF-8'')],
               resp_body = Text (str ''Invalid target URL format. Must start with http:// or https://'')\<rparr>)"
  using barePathSegment_substring [OF assms(1)] assms(2-)
  by (simp add: binding_handleRequest_def Let_def new_Response_string)

lemma binding_constructed:
  assumes "barePathSegment (url_pathname (req_url request)) seg"
    and "decodeURIComponent seg = Inr targetUrl"
    and "startsWith targetUrl (str ''http://'') \<or> startsWith targetUrl (str ''https://'')"
  shows "constructed (binding_handleRequest platform request) = [proxy_init request targetUrl]"
  using barePathSegment_substring [OF assms(1)] assms(2-) valid_target_nonempty [OF assms(3)]
  by (auto simp: binding_handleRequest_def Let_def proxy_init_def split: option.splits sum.splits)

lemma binding_rejected:
  assumes "barePathSegment (url_pathname (req_url request)) seg"
    and "decodeURIComponent seg = Inr targetUrl"
    and "startsWith targetUrl (str ''http://'') \<or> startsWith targetUrl (str ''https://'')"
    and "Request_error platform (proxy_init request targetUrl) = Some e"
  shows "binding_handleRequest platform request =
           \<lparr>result = Inl e, constructed = [proxy_init request targetUrl], fetched = [],
            console_error = []\<rparr>"
  using barePathSegment_substring [OF assms(1)] assms(2-) valid_target_nonempty [OF assms(3)]
  by (auto simp: binding_handleRequest_def Let_def proxy_init_def new_Response_string)

lemma binding_fetch_throws:
  assumes "barePathSegment (url_pathname (req_url request)) seg"
    and "decodeURIComponent seg = Inr targetUrl"
    and "startsWith targetUrl (str ''http://'') \<or> startsWith targetUrl (str ''https://'')"
    and "Request_error platform (proxy_init request targetUrl) = None"
    and "fetch platform (proxy_init request targetUrl) = Inl error"
  shows "binding_handleRequest platform request =
           \<lparr>result =
              Inr \<lparr>resp_status = 500,
                   resp_headers = [(str ''Content-Type'', str ''text/plain;charset=UTF-8'')],
                   resp_body = Text (str ''Failed to fetch target URL: '' @ message error)\<rparr>,
            constructed = [proxy_init request targetUrl],
            fetched = [proxy_init request targetUrl],
            console_error = [(str ''PROXX Fetch Error:'', error)]\<rparr>"
  using barePathSegment_substring [OF assms(1)] assms(2-) valid_target_nonempty [OF assms(3)]
  by (auto simp: binding_handleRequest_def Let_def proxy_init_def new_Response_string)

lemma binding_rewrap_throws:
  assumes "barePathSegment (url_pathname (req_url request)) seg"
    and "decodeURIComponent seg = Inr targetUrl"
    and "startsWith targetUrl (str ''http://'') \<or> startsWith targetUrl (str ''https://'')"
    and "Request_error platform (proxy_init request targetUrl) = None"
    and "fetch platform (proxy_init request targetUrl) = Inr upstream"
    and "new_Response platform (BodyOf (resp_body upstream)) (resp_status upstream)
           (resp_headers upstream) = Inl error"
  shows "binding_handleRequest platform request =
           \<lparr>result =
              Inr \<lparr>resp_status = 500,
                   resp_headers = [(str ''Content-Type'', str ''text/plain;charset=UTF-8'')],
                   resp_body = Text (str ''Failed to fetch target URL: '' @ message error)\<rparr>,
            constructed = [proxy_init request targetUrl],
            fetched = [proxy_init request targetUrl],
            console_error = [(str ''PROXX Fetch Error:'', error)]\<rparr>"
  using barePathSegment_substring [OF assms(1)] assms(2-) valid_target_nonempty [OF assms(3)]
  by (auto simp: binding_handleRequest_def Let_def proxy_init_def new_Response_string)

lemma binding_passes:
  assumes "barePathSegment (url_pathname (req_url request)) seg"
    and "decodeURIComponent seg = Inr targetUrl"
    and "startsWith targetUrl (str ''http://'') \<or> startsWith targetUrl (str ''https://'')"
    and "Request_error platform (proxy_init request targetUrl) = None"
    and "fetch platform (proxy_init request targetUrl) = Inr upstream"
    and "new_Response platform (BodyOf (resp_body upstream)) (resp_status upstream)
           (resp_headers upstream) = Inr newResponse"
  shows "binding_handleRequest platform request =
           \<lparr>result =
              Inr (newResponse\<lparr>resp_headers := Headers_set
                    (Headers_delete
                       (Headers_delete (resp_headers newResponse)
                          (str ''content-security-policy''))
                       (str ''x-frame-options''))
                    (str ''Access-Control-Allow-Origin'') (str ''*'')\<rparr>),
            constructed = [proxy_init request targetUrl],
            fetched = [proxy_init request targetUrl],
            console_error = []\<rparr>"
  using barePathSegment_substring [OF assms(1)] assms(2-) valid_target_nonempty [OF assms(3)]
  by (auto simp: binding_handleRequest_def Let_def proxy_init_def new_Response_string)

text \<open>The fallback outcome arises only from the branch for a missing marker.\<close>

lemma worker_fallback_only_if:
  assumes "worker_handleRequest platform request =
             respond (worker_createRootResponse platform h)"
  shows "indexOf (url_pathname (req_url request)) (str ''/proxx/'') = - 1"
proof (rule ccontr)
  assume n: "indexOf (url_pathname (req_url request)) (str ''/proxx/'') \<noteq> - 1"
  have s: "result (worker_handleRequest platform request) =
             Inr \<lparr>resp_status = 200,
                  resp_headers = [(str ''Content-Type'', str ''text/html'')],
                  resp_body = resp_body (projr (worker_createRootResponse platform h))\<rparr>"
    and f: "constructed (worker_handleRequest platform request) = []"
    unfolding assms by (simp_all add: respond_def worker_createRootResponse_value)
  from n have "(\<exists>r. result (worker_handleRequest platform request) = Inr r \<and> resp_status r = 400) \<or>
               constructed (worker_handleRequest platform request) \<noteq> []"
    by (auto simp: worker_handleRequest_def Let_def respond_def new_Response_string
          split: sum.splits option.splits)
  with s f show False by auto
qed


section \<open>Evaluation on concrete requests\<close>

lemmas eval_defs =
  worker_handleRequest_def binding_handleRequest_def Let_def indexOf_def str_def
  startsWith_def substring_def decodeURIComponent_def hexValue_def leadingOnes_def
  respond_def upstream_answers_def upstream_fails_def accepts_all_def rejects_target_def
  sample_platform_def get_request_def proxy_init_def new_Response_def Headers_has_def
  Headers_delete_def Headers_get_def sameName_def byteLowercase_def

lemmas encode_defs =
  encodeURIComponent_def uriUnescaped_def str_def isLeadingSurrogate_def
  isTrailingSurrogate_def utf8_encode_def percentEscape_def hexDigit_def

lemma example_wellFormed: "isWellFormed (str ''https://example.com/path?q=1'')"
  by (simp add: encode_defs)

lemma example_encode:
  "encodeURIComponent (str ''https://example.com/path?q=1'')
     = Inr (str ''https%3A%2F%2Fexample.com%2Fpath%3Fq%3D1'')"
  by (simp add: encode_defs)

lemma example_beyond_ascii:
  "encodeURIComponent (str ''http://a/'' @ [0xE9, 0x20AC, 0xD83D, 0xDE00])
     = Inr (str ''http%3A%2F%2Fa%2F%C3%A9%E2%82%AC%F0%9F%98%80'')"
  "isWellFormed (str ''http://a/'' @ [0xE9, 0x20AC, 0xD83D, 0xDE00])"
  "\<not> isWellFormed (str ''http://a/'' @ [0xD83D])"
  "encodeURIComponent (str ''http://a/'' @ [0xD83D]) = Inl URIError"
  by (simp_all add: encode_defs UTF16SurrogatePairToCodePoint_def)

lemma continuationBytes_numeral:
  "continuationBytes 1 s = continuationBytes (Suc 0) s"
  "continuationBytes 2 s = continuationBytes (Suc (Suc 0)) s"
  "continuationBytes 3 s = continuationBytes (Suc (Suc (Suc 0))) s"
  by (simp_all add: numeral_2_eq_2 numeral_3_eq_3)

lemma example_decode:
  "decodeURIComponent (str ''%e2%82%ac%F0%9F%98%80'') = Inr [0x20AC, 0xD83D, 0xDE00]"
  "decodeURIComponent (str ''%'') = Inl URIError"
  "decodeURIComponent (str ''a%4'') = Inl URIError"
  "decodeURIComponent (str ''%C0%80'') = Inl URIError"
  "decodeURIComponent (str ''%ED%A0%80'') = Inl URIError"
  "decodeURIComponent (str ''%F4%90%80%80'') = Inl URIError"
  "decodeURIComponent (str ''%E2%82'') = Inl URIError"
  "decodeURIComponent (str ''%80'') = Inl URIError"
  by (simp_all add: decodeURIComponent_def str_def hexValue_def leadingOnes_def Let_def
        utf8_decode_def UTF16EncodeCodePoint_def continuationBytes_numeral)

section \<open>The properties\<close>

text \<open>
  Claim C1, as amended. After a successful fetch the handler returns a response without a
  \<open>content-security-policy\<close> header and without an \<open>x-frame-options\<close> header, in both
  workers. When \<open>new Response\<close> accepts the upstream response (its status lies in 200..599,
  and it has no body under a null body status), the worker behind the binding returns it with
  \<open>Access-Control-Allow-Origin\<close> set to \<open>*\<close>; the worker with the prefix does not touch
  that header, which is there exactly as the upstream sent it.
\<close>

theorem sanitized_headers:
  assumes "decodeURIComponent seg = Inr targetUrl"
    and "startsWith targetUrl (str ''http://'') \<or> startsWith targetUrl (str ''https://'')"
    and "Request_error platform (proxy_init request targetUrl) = None"
    and "fetch platform (proxy_init request targetUrl) = Inr upstream"
  shows
  "(prefixMarkerSegment (url_pathname (req_url request)) seg \<longrightarrow>
      (\<exists>r. result (worker_handleRequest platform request) = Inr r \<and>
         \<not> Headers_has (resp_headers r) (str ''content-security-policy'') \<and>
         \<not> Headers_has (resp_headers r) (str ''x-frame-options'') \<and>
         (200 \<le> resp_status upstream \<and> resp_status upstream \<le> 599 \<and>
            (resp_body upstream \<noteq> Null \<longrightarrow> resp_status upstream \<notin> {204, 205, 304}) \<longrightarrow>
            Headers_get (resp_headers r) (str ''Access-Control-Allow-Origin'') =
              Headers_get (resp_headers upstream) (str ''Access-Control-Allow-Origin'')))) \<and>
   (barePathSegment (url_pathname (req_url request)) seg \<longrightarrow>
      (\<exists>r. result (binding_handleRequest platform request) = Inr r \<and>
         \<not> Headers_has (resp_headers r) (str ''content-security-policy'') \<and>
         \<not> Headers_has (resp_headers r) (str ''x-frame-options'') \<and>
         (200 \<le> resp_status upstream \<and> resp_status upstream \<le> 599 \<and>
            (resp_body upstream \<noteq> Null \<longrightarrow> resp_status upstream \<notin> {204, 205, 304}) \<longrightarrow>
            Headers_get (resp_headers r) (str ''Access-Control-Allow-Origin'') = Some (str ''*''))))"
proof -
  let ?D = "Headers_delete
             (Headers_delete (resp_headers upstream) (str ''content-security-policy''))
             (str ''x-frame-options'')"
  let ?S = "Headers_set ?D (str ''Access-Control-Allow-Origin'') (str ''*'')"
  let ?plain = "[(str ''Content-Type'', str ''text/plain;charset=UTF-8'')]"
  have c: "\<not> Headers_has ?D (str ''content-security-policy'')"
    using Headers_has_delete_other Headers_has_delete by blast
  have x: "\<not> Headers_has ?D (str ''x-frame-options'')"
    by (rule Headers_has_delete)
  have g: "Headers_get ?D (str ''Access-Control-Allow-Origin'')
           = Headers_get (resp_headers upstream) (str ''Access-Control-Allow-Origin'')"
    by (simp add: Headers_get_delete_other names_distinct2)
  have sc: "\<not> Headers_has ?S (str ''content-security-policy'')"
    using names_distinct(2) c by (rule Headers_has_set_other)
  have sx: "\<not> Headers_has ?S (str ''x-frame-options'')"
    using names_distinct(3) x by (rule Headers_has_set_other)
  have pc: "\<not> Headers_has ?plain (str ''content-security-policy'')"
    and px: "\<not> Headers_has ?plain (str ''x-frame-options'')"
    by (simp_all add: Headers_has_def sameName_def byteLowercase_def str_def)
  let ?n = "new_Response platform (BodyOf (resp_body upstream)) (resp_status upstream)
              (resp_headers upstream)"
  show ?thesis
  proof (cases ?n)
    case (Inl error)
    have no: "\<not> (200 \<le> resp_status upstream \<and> resp_status upstream \<le> 599 \<and>
            (resp_body upstream \<noteq> Null \<longrightarrow> resp_status upstream \<notin> {204, 205, 304}))"
      using Inl new_Response_body [of "resp_status upstream" "resp_body upstream" platform
          "resp_headers upstream"]
      by auto
    show ?thesis
    proof (intro conjI impI)
      assume s: "prefixMarkerSegment (url_pathname (req_url request)) seg"
      show "\<exists>r. result (worker_handleRequest platform request) = Inr r \<and>
         \<not> Headers_has (resp_headers r) (str ''content-security-policy'') \<and>
         \<not> Headers_has (resp_headers r) (str ''x-frame-options'') \<and>
         (200 \<le> resp_status upstream \<and> resp_status upstream \<le> 599 \<and>
            (resp_body upstream \<noteq> Null \<longrightarrow> resp_status upstream \<notin> {204, 205, 304}) \<longrightarrow>
            Headers_get (resp_headers r) (str ''Access-Control-Allow-Origin'') =
              Headers_get (resp_headers upstream) (str ''Access-Control-Allow-Origin''))"
        unfolding worker_rewrap_throws [OF s assms Inl] using pc px no by auto
    next
      assume s: "barePathSegment (url_pathname (req_url request)) seg"
      show "\<exists>r. result (binding_handleRequest platform request) = Inr r \<and>
         \<not> Headers_has (resp_headers r) (str ''content-security-policy'') \<and>
         \<not> Headers_has (resp_headers r) (str ''x-frame-options'') \<and>
         (200 \<le> resp_status upstream \<and> resp_status upstream \<le> 599 \<and>
            (resp_body upstream \<noteq> Null \<longrightarrow> resp_status upstream \<notin> {204, 205, 304}) \<longrightarrow>
            Headers_get (resp_headers r) (str ''Access-Control-Allow-Origin'') = Some (str ''*''))"
        unfolding binding_rewrap_throws [OF s assms Inl] using pc px no by auto
    qed
  next
    case (Inr newResponse)
    from new_Response_body_Inr [OF Inr]
    have h: "resp_headers newResponse = resp_headers upstream" by simp
    show ?thesis
    proof (intro conjI impI)
      assume s: "prefixMarkerSegment (url_pathname (req_url request)) seg"
      show "\<exists>r. result (worker_handleRequest platform request) = Inr r \<and>
         \<not> Headers_has (resp_headers r) (str ''content-security-policy'') \<and>
         \<not> Headers_has (resp_headers r) (str ''x-frame-options'') \<and>
         (200 \<le> resp_status upstream \<and> resp_status upstream \<le> 599 \<and>
            (resp_body upstream \<noteq> Null \<longrightarrow> resp_status upstream \<notin> {204, 205, 304}) \<longrightarrow>
            Headers_get (resp_headers r) (str ''Access-Control-Allow-Origin'') =
              Headers_get (resp_headers upstream) (str ''Access-Control-Allow-Origin''))"
        unfolding worker_passes [OF s assms Inr] h using c x g by simp
    next
      assume s: "barePathSegment (url_pathname (req_url request)) seg"
      show "\<exists>r. result (binding_handleRequest platform request) = Inr r \<and>
         \<not> Headers_has (resp_headers r) (str ''content-security-policy'') \<and>
         \<not> Headers_has (resp_headers r) (str ''x-frame-options'') \<and>
         (200 \<le> resp_status upstream \<and> resp_status upstream \<le> 599 \<and>
            (resp_body upstream \<noteq> Null \<longrightarrow> resp_status upstream \<notin> {204, 205, 304}) \<longrightarrow>
            Headers_get (resp_headers r) (str ''Access-Control-Allow-Origin'') = Some (str ''*''))"
        unfolding binding_passes [OF s assms Inr] h using sc sx by (simp add: Headers_get_set)
    qed
  qed
qed

theorem sanitized_headers_witness:
  "result (worker_handleRequest (sample_platform accepts_all
        (upstream_answers
         \<lparr>resp_status = 200,
          resp_headers =
            [(str ''content-security-policy'', str ''default-src https:''),
             (str ''X-Frame-Options'', str ''DENY''),
             (str ''Content-Type'', str ''text/html'')],
          resp_body = Stream [104, 105]\<rparr>)) (get_request (str ''/proxx/https%3A%2F%2Fexample.com'')))
     = Inr \<lparr>resp_status = 200, resp_headers = [(str ''Content-Type'', str ''text/html'')],
            resp_body = Stream [104, 105]\<rparr> \<and>
   result (binding_handleRequest (sample_platform accepts_all
        (upstream_answers
         \<lparr>resp_status = 200,
          resp_headers =
            [(str ''content-security-policy'', str ''default-src https:''),
             (str ''X-Frame-Options'', str ''DENY''),
             (str ''Content-Type'', str ''text/html'')],
          resp_body = Stream [104, 105]\<rparr>)) (get_request (str ''/https%3A%2F%2Fexample.com'')))
     = Inr \<lparr>resp_status = 200,
            resp_headers = [(str ''Content-Type'', str ''text/html''),
                            (str ''Access-Control-Allow-Origin'', str ''*'')],
            resp_body = Stream [104, 105]\<rparr>"
proof -
  let ?P = "sample_platform accepts_all
        (upstream_answers
         \<lparr>resp_status = 200,
          resp_headers =
            [(str ''content-security-policy'', str ''default-src https:''),
             (str ''X-Frame-Options'', str ''DENY''),
             (str ''Content-Type'', str ''text/html'')],
          resp_body = Stream [104, 105]\<rparr>)"
  let ?up = "\<lparr>resp_status = 200,
          resp_headers =
            [(str ''content-security-policy'', str ''default-src https:''),
             (str ''X-Frame-Options'', str ''DENY''),
             (str ''Content-Type'', str ''text/html'')],
          resp_body = Stream [104, 105]\<rparr> :: nat list Response"
  have d: "decodeURIComponent (str ''https%3A%2F%2Fexample.com'') = Inr (str ''https://example.com'')"
    by (simp add: eval_defs)
  have v: "startsWith (str ''https://example.com'') (str ''http://'') \<or> startsWith (str ''https://example.com'') (str ''https://'')"
    by (simp add: eval_defs)
  have p: "prefixMarkerSegment (url_pathname (req_url (get_request (str ''/proxx/https%3A%2F%2Fexample.com'')))) (str ''https%3A%2F%2Fexample.com'')"
    using prefixMarkerSegment_head [of "str ''https%3A%2F%2Fexample.com''"] by (simp add: get_request_def str_def)
  have b: "barePathSegment (url_pathname (req_url (get_request (str ''/https%3A%2F%2Fexample.com'')))) (str ''https%3A%2F%2Fexample.com'')"
    by (simp add: barePathSegment_def get_request_def str_def)
  have a: "Request_error ?P (proxy_init (get_request (str ''/proxx/https%3A%2F%2Fexample.com'')) (str ''https://example.com'')) = None"
    and a': "Request_error ?P (proxy_init (get_request (str ''/https%3A%2F%2Fexample.com'')) (str ''https://example.com'')) = None"
    by (simp_all add: sample_platform_def accepts_all_def)
  have f: "fetch ?P (proxy_init (get_request (str ''/proxx/https%3A%2F%2Fexample.com'')) (str ''https://example.com'')) = Inr ?up"
    and f': "fetch ?P (proxy_init (get_request (str ''/https%3A%2F%2Fexample.com'')) (str ''https://example.com'')) = Inr ?up"
    by (simp_all add: sample_platform_def upstream_answers_def)
  have r: "result (worker_handleRequest ?P (get_request (str ''/proxx/https%3A%2F%2Fexample.com'')))
     = Inr \<lparr>resp_status = 200, resp_headers = [(str ''Content-Type'', str ''text/html'')],
            resp_body = Stream [104, 105]\<rparr>"
    by (simp add: eval_defs)
  have q: "result (binding_handleRequest ?P (get_request (str ''/https%3A%2F%2Fexample.com'')))
     = Inr \<lparr>resp_status = 200,
            resp_headers = [(str ''Content-Type'', str ''text/html''),
                            (str ''Access-Control-Allow-Origin'', str ''*'')],
            resp_body = Stream [104, 105]\<rparr>"
    by (simp add: eval_defs)
  show ?thesis
    using p b r q sanitized_headers [OF d v a f] sanitized_headers [OF d v a' f']
    by simp
qed

text \<open>
  The claim as first stated fails: the worker with the prefix does not add the header, and
  the worker behind the binding does not return it when \<open>new Response\<close> rejects the status
  of the upstream response.
\<close>

theorem cors_header_absent:
  "result (worker_handleRequest (sample_platform accepts_all
        (upstream_answers
         \<lparr>resp_status = 200,
          resp_headers =
            [(str ''content-security-policy'', str ''default-src https:''),
             (str ''X-Frame-Options'', str ''DENY''),
             (str ''Content-Type'', str ''text/html'')],
          resp_body = Stream [104, 105]\<rparr>)) (get_request (str ''/proxx/https%3A%2F%2Fexample.com'')))
     = Inr \<lparr>resp_status = 200, resp_headers = [(str ''Content-Type'', str ''text/html'')],
            resp_body = Stream [104, 105]\<rparr> \<and>
   Headers_get [(str ''Content-Type'', str ''text/html'')]
     (str ''Access-Control-Allow-Origin'') = None \<and>
   result (binding_handleRequest (sample_platform accepts_all
        (upstream_answers
         \<lparr>resp_status = 999, resp_headers = [(str ''Content-Type'', str ''text/html'')],
          resp_body = Stream [104, 105]\<rparr>)) (get_request (str ''/https%3A%2F%2Fexample.com'')))
     = Inr \<lparr>resp_status = 500,
            resp_headers = [(str ''Content-Type'', str ''text/plain;charset=UTF-8'')],
            resp_body = Text (str ''Failed to fetch target URL: status out of range'')\<rparr> \<and>
   Headers_get [(str ''Content-Type'', str ''text/plain;charset=UTF-8'')]
     (str ''Access-Control-Allow-Origin'') = None"
  by (simp add: eval_defs)

text \<open>
  Claim C2. Let \<open>u\<close> be a URL, which is a well-formed string (an ASCII string is one, by
  \<open>isWellFormed_ascii\<close>, and on a string that is not well formed \<open>encodeURIComponent\<close>
  throws). Then \<open>encodeURIComponent u\<close> returns a string \<open>e\<close>; from a path that carries
  \<open>e\<close> as its target segment (after the first \<open>/proxx/\<close>, or after the leading \<open>/\<close>
  behind the binding) the extraction step of the handler takes \<open>e\<close>; and
  \<open>decodeURIComponent e\<close> returns \<open>u\<close>. When \<open>u\<close> begins with \<open>http://\<close> or
  \<open>https://\<close>, the handler goes on with \<open>u\<close> as the target: it gives \<open>u\<close> to
  \<open>new Request\<close> and, when the constructor accepts it, fetches exactly \<open>u\<close>.
\<close>

theorem target_round_trip:
  assumes "isWellFormed u"
  shows "\<exists>e. encodeURIComponent u = Inr e \<and>
           (\<forall>path. prefixMarkerSegment path e \<longrightarrow>
              substring path (indexOf path (str ''/proxx/'') + int (length (str ''/proxx/''))) = e) \<and>
           substring (str ''/'' @ e) 1 = e \<and>
           decodeURIComponent e = Inr u \<and>
           (startsWith u (str ''http://'') \<or> startsWith u (str ''https://'') \<longrightarrow>
              (\<forall>platform request.
                 prefixMarkerSegment (url_pathname (req_url request)) e \<longrightarrow>
                 map pr_url (constructed (worker_handleRequest platform request)) = [u] \<and>
                 (Request_error platform (proxy_init request u) = None \<longrightarrow>
                    map pr_url (fetched (worker_handleRequest platform request)) = [u])) \<and>
              (\<forall>platform request.
                 url_pathname (req_url request) = str ''/'' @ e \<longrightarrow>
                 map pr_url (constructed (binding_handleRequest platform request)) = [u] \<and>
                 (Request_error platform (proxy_init request u) = None \<longrightarrow>
                    map pr_url (fetched (binding_handleRequest platform request)) = [u])))"
proof -
  from Encode_wellFormed [OF assms] obtain e where e: "Encode u = Inr e" by blast
  have d: "decodeURIComponent e = Inr u"
    unfolding decodeURIComponent_def using e by (rule Decode_Encode)
  have x: "substring path (indexOf path (str ''/proxx/'') + int (length (str ''/proxx/''))) = e"
    if "prefixMarkerSegment path e" for path
    using that by (rule prefixMarkerSegment_substring)
  have y: "substring (str ''/'' @ e) 1 = e"
    by (simp add: substring_def str_def)
  have fe: "fetched (worker_handleRequest platform request) = [proxy_init request u]"
    if v: "startsWith u (str ''http://'') \<or> startsWith u (str ''https://'')"
      and p: "prefixMarkerSegment (url_pathname (req_url request)) e"
      and a: "Request_error platform (proxy_init request u) = None"
    for platform :: "'a Platform" and request
  proof (cases "fetch platform (proxy_init request u)")
    case (Inl error)
    show ?thesis unfolding worker_fetch_throws [OF p d v a Inl] by simp
  next
    case (Inr upstream)
    show ?thesis
    proof (cases "new_Response platform (BodyOf (resp_body upstream)) (resp_status upstream)
                    (resp_headers upstream)")
      case (Inl error)
      show ?thesis unfolding worker_rewrap_throws [OF p d v a Inr Inl] by simp
    next
      case (Inr newResponse)
      show ?thesis
        unfolding worker_passes [OF p d v a \<open>fetch platform (proxy_init request u) = Inr upstream\<close> Inr]
        by simp
    qed
  qed
  have w: "map pr_url (constructed (worker_handleRequest platform request)) = [u] \<and>
           (Request_error platform (proxy_init request u) = None \<longrightarrow>
              map pr_url (fetched (worker_handleRequest platform request)) = [u])"
    if v: "startsWith u (str ''http://'') \<or> startsWith u (str ''https://'')"
      and p: "prefixMarkerSegment (url_pathname (req_url request)) e"
    for platform :: "'a Platform" and request
    using worker_constructed [OF p d v, of platform] fe [OF v p, of platform]
    by (simp add: proxy_init_def)
  have fb: "fetched (binding_handleRequest platform request) = [proxy_init request u]"
    if v: "startsWith u (str ''http://'') \<or> startsWith u (str ''https://'')"
      and p: "barePathSegment (url_pathname (req_url request)) e"
      and a: "Request_error platform (proxy_init request u) = None"
    for platform :: "'b Platform" and request
  proof (cases "fetch platform (proxy_init request u)")
    case (Inl error)
    show ?thesis unfolding binding_fetch_throws [OF p d v a Inl] by simp
  next
    case (Inr upstream)
    show ?thesis
    proof (cases "new_Response platform (BodyOf (resp_body upstream)) (resp_status upstream)
                    (resp_headers upstream)")
      case (Inl error)
      show ?thesis unfolding binding_rewrap_throws [OF p d v a Inr Inl] by simp
    next
      case (Inr newResponse)
      show ?thesis
        unfolding binding_passes [OF p d v a \<open>fetch platform (proxy_init request u) = Inr upstream\<close> Inr]
        by simp
    qed
  qed
  have b: "map pr_url (constructed (binding_handleRequest platform request)) = [u] \<and>
           (Request_error platform (proxy_init request u) = None \<longrightarrow>
              map pr_url (fetched (binding_handleRequest platform request)) = [u])"
    if v: "startsWith u (str ''http://'') \<or> startsWith u (str ''https://'')"
      and p: "url_pathname (req_url request) = str ''/'' @ e"
    for platform :: "'b Platform" and request
  proof -
    from valid_target_nonempty [OF v] obtain C rest where "u = C # rest"
      by (cases u) auto
    with e have "e \<noteq> []" using Encode_nonempty by blast
    with p have s: "barePathSegment (url_pathname (req_url request)) e"
      by (simp add: barePathSegment_def str_def)
    show ?thesis
      using binding_constructed [OF s d v, of platform] fb [OF v s, of platform]
      by (simp add: proxy_init_def)
  qed
  show ?thesis
  proof (intro exI conjI allI impI)
    show "encodeURIComponent u = Inr e" unfolding encodeURIComponent_def by (rule e)
  qed (use x y d w b in \<open>blast+\<close>)
qed

theorem target_round_trip_witness:
  "encodeURIComponent (str ''https://example.com/path?q=1'')
     = Inr (str ''https%3A%2F%2Fexample.com%2Fpath%3Fq%3D1'') \<and>
   substring (str ''/proxx/https%3A%2F%2Fexample.com%2Fpath%3Fq%3D1'')
     (indexOf (str ''/proxx/https%3A%2F%2Fexample.com%2Fpath%3Fq%3D1'') (str ''/proxx/'')
        + int (length (str ''/proxx/'')))
     = str ''https%3A%2F%2Fexample.com%2Fpath%3Fq%3D1'' \<and>
   decodeURIComponent (str ''https%3A%2F%2Fexample.com%2Fpath%3Fq%3D1'')
     = Inr (str ''https://example.com/path?q=1'') \<and>
   map pr_url (fetched (worker_handleRequest (sample_platform accepts_all (upstream_fails (Error (str ''unreachable''))))
     (get_request (str ''/proxx/https%3A%2F%2Fexample.com%2Fpath%3Fq%3D1''))))
     = [str ''https://example.com/path?q=1''] \<and>
   map pr_url (fetched (binding_handleRequest (sample_platform accepts_all (upstream_fails (Error (str ''unreachable''))))
     (get_request (str ''/https%3A%2F%2Fexample.com%2Fpath%3Fq%3D1''))))
     = [str ''https://example.com/path?q=1'']"
proof -
  let ?u = "str ''https://example.com/path?q=1''"
  let ?e = "str ''https%3A%2F%2Fexample.com%2Fpath%3Fq%3D1''"
  let ?p = "str ''/proxx/https%3A%2F%2Fexample.com%2Fpath%3Fq%3D1''"
  let ?P = "sample_platform accepts_all (upstream_fails (Error (str ''unreachable''))) :: nat list Platform"
  let ?w = "get_request ?p"
  let ?b = "get_request (str ''/https%3A%2F%2Fexample.com%2Fpath%3Fq%3D1'')"
  have v: "startsWith ?u (str ''http://'') \<or> startsWith ?u (str ''https://'')"
    by (simp add: startsWith_def str_def)
  from target_round_trip [OF example_wellFormed, where ?'a = "nat list" and ?'b = "nat list"]
  obtain e where e: "encodeURIComponent ?u = Inr e"
    and x0: "\<forall>path. prefixMarkerSegment path e \<longrightarrow>
              substring path (indexOf path (str ''/proxx/'') + int (length (str ''/proxx/''))) = e"
    and d: "decodeURIComponent e = Inr ?u"
    and f0: "startsWith ?u (str ''http://'') \<or> startsWith ?u (str ''https://'') \<longrightarrow>
              (\<forall>(platform :: nat list Platform) request.
                 prefixMarkerSegment (url_pathname (req_url request)) e \<longrightarrow>
                 map pr_url (constructed (worker_handleRequest platform request)) = [?u] \<and>
                 (Request_error platform (proxy_init request ?u) = None \<longrightarrow>
                    map pr_url (fetched (worker_handleRequest platform request)) = [?u])) \<and>
              (\<forall>(platform :: nat list Platform) request.
                 url_pathname (req_url request) = str ''/'' @ e \<longrightarrow>
                 map pr_url (constructed (binding_handleRequest platform request)) = [?u] \<and>
                 (Request_error platform (proxy_init request ?u) = None \<longrightarrow>
                    map pr_url (fetched (binding_handleRequest platform request)) = [?u]))"
    by (elim exE conjE) (rule that)
  from x0 have x: "prefixMarkerSegment ?p e \<longrightarrow>
              substring ?p (indexOf ?p (str ''/proxx/'') + int (length (str ''/proxx/''))) = e"
    by (rule spec)
  from f0 v have g:
             "(\<forall>(platform :: nat list Platform) request.
                 prefixMarkerSegment (url_pathname (req_url request)) e \<longrightarrow>
                 map pr_url (constructed (worker_handleRequest platform request)) = [?u] \<and>
                 (Request_error platform (proxy_init request ?u) = None \<longrightarrow>
                    map pr_url (fetched (worker_handleRequest platform request)) = [?u])) \<and>
              (\<forall>(platform :: nat list Platform) request.
                 url_pathname (req_url request) = str ''/'' @ e \<longrightarrow>
                 map pr_url (constructed (binding_handleRequest platform request)) = [?u] \<and>
                 (Request_error platform (proxy_init request ?u) = None \<longrightarrow>
                    map pr_url (fetched (binding_handleRequest platform request)) = [?u]))"
    by (rule mp)
  note gw = g [THEN conjunct1, THEN spec [where x = ?P], THEN spec [where x = ?w]]
  note gb = g [THEN conjunct2, THEN spec [where x = ?P], THEN spec [where x = ?b]]
  from e have ee: "e = ?e" unfolding example_encode by simp
  have p: "prefixMarkerSegment (str ''/proxx/'' @ ?e) ?e"
    by (rule prefixMarkerSegment_head)
  have c1: "str ''/proxx/'' @ ?e = ?p"
    and c2: "str ''/'' @ ?e = str ''/https%3A%2F%2Fexample.com%2Fpath%3Fq%3D1''"
    by (simp_all add: str_def)
  from p have p': "prefixMarkerSegment ?p ?e" unfolding c1 .
  have a: "Request_error ?P init = None" for init
    by (simp add: sample_platform_def accepts_all_def)
  from x p' have x': "substring ?p (indexOf ?p (str ''/proxx/'') + int (length (str ''/proxx/''))) = ?e"
    unfolding ee by simp
  from gw p' a have w': "map pr_url (fetched (worker_handleRequest ?P ?w)) = [?u]"
    unfolding ee by (simp add: get_request_def)
  from gb a have b': "map pr_url (fetched (binding_handleRequest ?P ?b)) = [?u]"
    unfolding ee c2 by (simp add: get_request_def)
  from example_encode x' d w' b' show ?thesis unfolding ee by (intro conjI)
qed

text \<open>
  Claim C3. A request whose path lacks the target segment gets the fallback document: the
  handler returns status 200, \<open>Content-Type: text/html\<close> and the page of the source (with
  the host name in its link, in the worker with the prefix), and it builds and fetches no
  request. This is so in the worker with the prefix when \<open>/proxx/\<close> does not occur in the
  path, and in the worker behind the binding when the path has length at most 1.
\<close>

theorem fallback_when_no_target:
  \<open>(\<not> (\<exists>pre post. url_pathname (req_url request) = pre @ str ''/proxx/'' @ post) \<longrightarrow>
      worker_handleRequest platform request =
        \<lparr>result =
           Inr \<lparr>resp_status = 200,
                resp_headers = [(str ''Content-Type'', str ''text/html'')],
                resp_body = Text (str ''
    <!DOCTYPE html>
    <html lang="en">
    <head>
        <meta charset="UTF-8">
        <meta name="viewport" content="width=device-width, initial-scale=1.0">
        <title>KENOS PROXX Root by ig0</title>
        <script src="https://cdn.tailwindcss.com"></script>
        <style>
          body { background-color: black; font-family: sans-serif; color: white; display: flex; align-items: center; justify-content: center; height: 100vh; margin: 0; }
          .card { background-color: #1a1a1a; padding: 2rem; border-radius: 0.5rem; border: 1px solid white; text-align: center; }
        </style>
    </head>
    <body>
        <div class="card">
            <h1 class="text-3xl font-bold mb-4">KENOS PROXX Service Root</h1>
            <p class="text-sm text-gray-400 mb-6 uppercase tracking-widest font-semibold">by ig0</p>
            <p class="mb-6">This path is for worker routing only.</p>
            <p>Please return to the main homepage to use the PROXX application.</p>
            <a href="https://'' @ url_hostname (req_url request) @ str ''/" class="mt-4 inline-block bg-white text-black font-semibold py-2 px-4 rounded hover:bg-gray-200 transition">Go to Homepage</a>
        </div>
    </body>
    </html>
  '')\<rparr>,
         constructed = [], fetched = [], console_error = []\<rparr>) \<and>
   (length (url_pathname (req_url request)) \<le> 1 \<longrightarrow>
      binding_handleRequest platform request =
        \<lparr>result =
           Inr \<lparr>resp_status = 200,
                resp_headers = [(str ''Content-Type'', str ''text/html'')],
                resp_body = Text (str ''
    <!DOCTYPE html>
    <html lang="en">
    <head>
        <meta charset="UTF-8">
        <meta name="viewport" content="width=device-width, initial-scale=1.0">
        <title>KENOS PROXX Root by ig0</title>
        <script src="https://cdn.tailwindcss.com"></script>
        <style>
          body { background-color: black; font-family: sans-serif; color: white; display: flex; align-items: center; justify-content: center; height: 100vh; margin: 0; }
          .card { background-color: #1a1a1a; padding: 2rem; border-radius: 0.5rem; border: 1px solid white; text-align: center; }
        </style>
    </head>
    <body>
        <div class="card">
            <h1 class="text-3xl font-bold mb-4">KENOS PROXX Service Root</h1>
            <p class="text-sm text-gray-400 mb-6 uppercase tracking-widest font-semibold">by ig0</p>
            <p class="mb-6">This path is for worker routing only. When accessed directly, it cannot parse a URL.</p>
            <p>Please use the main Pages URL to enter your target site.</p>
        </div>
    </body>
    </html>
  '')\<rparr>,
         constructed = [], fetched = [], console_error = []\<rparr>)\<close>
proof (intro conjI impI)
  assume "\<not> (\<exists>pre post. url_pathname (req_url request) = pre @ str ''/proxx/'' @ post)"
  from worker_fallback [OF this, of platform]
  show \<open>worker_handleRequest platform request =
        \<lparr>result =
           Inr \<lparr>resp_status = 200,
                resp_headers = [(str ''Content-Type'', str ''text/html'')],
                resp_body = Text (str ''
    <!DOCTYPE html>
    <html lang="en">
    <head>
        <meta charset="UTF-8">
        <meta name="viewport" content="width=device-width, initial-scale=1.0">
        <title>KENOS PROXX Root by ig0</title>
        <script src="https://cdn.tailwindcss.com"></script>
        <style>
          body { background-color: black; font-family: sans-serif; color: white; display: flex; align-items: center; justify-content: center; height: 100vh; margin: 0; }
          .card { background-color: #1a1a1a; padding: 2rem; border-radius: 0.5rem; border: 1px solid white; text-align: center; }
        </style>
    </head>
    <body>
        <div class="card">
            <h1 class="text-3xl font-bold mb-4">KENOS PROXX Service Root</h1>
            <p class="text-sm text-gray-400 mb-6 uppercase tracking-widest font-semibold">by ig0</p>
            <p class="mb-6">This path is for worker routing only.</p>
            <p>Please return to the main homepage to use the PROXX application.</p>
            <a href="https://'' @ url_hostname (req_url request) @ str ''/" class="mt-4 inline-block bg-white text-black font-semibold py-2 px-4 rounded hover:bg-gray-200 transition">Go to Homepage</a>
        </div>
    </body>
    </html>
  '')\<rparr>,
         constructed = [], fetched = [], console_error = []\<rparr>\<close>
    by (simp only: worker_createRootResponse_value respond_def)
next
  assume "length (url_pathname (req_url request)) \<le> 1"
  from binding_fallback [OF this, of platform]
  show \<open>binding_handleRequest platform request =
        \<lparr>result =
           Inr \<lparr>resp_status = 200,
                resp_headers = [(str ''Content-Type'', str ''text/html'')],
                resp_body = Text (str ''
    <!DOCTYPE html>
    <html lang="en">
    <head>
        <meta charset="UTF-8">
        <meta name="viewport" content="width=device-width, initial-scale=1.0">
        <title>KENOS PROXX Root by ig0</title>
        <script src="https://cdn.tailwindcss.com"></script>
        <style>
          body { background-color: black; font-family: sans-serif; color: white; display: flex; align-items: center; justify-content: center; height: 100vh; margin: 0; }
          .card { background-color: #1a1a1a; padding: 2rem; border-radius: 0.5rem; border: 1px solid white; text-align: center; }
        </style>
    </head>
    <body>
        <div class="card">
            <h1 class="text-3xl font-bold mb-4">KENOS PROXX Service Root</h1>
            <p class="text-sm text-gray-400 mb-6 uppercase tracking-widest font-semibold">by ig0</p>
            <p class="mb-6">This path is for worker routing only. When accessed directly, it cannot parse a URL.</p>
            <p>Please use the main Pages URL to enter your target site.</p>
        </div>
    </body>
    </html>
  '')\<rparr>,
         constructed = [], fetched = [], console_error = []\<rparr>\<close>
    by (simp only: binding_createRootResponse_value respond_def)
qed

theorem fallback_when_no_target_witness:
  "map_sum message resp_status (result (worker_handleRequest (sample_platform accepts_all (upstream_fails (Error (str ''unreachable'')))) (get_request (str ''/''))))
     = Inr 200 \<and>
   fetched (worker_handleRequest (sample_platform accepts_all (upstream_fails (Error (str ''unreachable'')))) (get_request (str ''/''))) = [] \<and>
   map_sum message resp_status (result (binding_handleRequest (sample_platform accepts_all (upstream_fails (Error (str ''unreachable'')))) (get_request (str ''/''))))
     = Inr 200 \<and>
   fetched (binding_handleRequest (sample_platform accepts_all (upstream_fails (Error (str ''unreachable'')))) (get_request (str ''/''))) = []"
proof -
  have "indexOf (str ''/'') (str ''/proxx/'') = - 1"
    by (simp add: indexOf_def str_def startsWith_def)
  then have a: "\<not> (\<exists>pre post. url_pathname (req_url (get_request (str ''/'')))
                       = pre @ str ''/proxx/'' @ post)"
    by (simp add: indexOf_absent_iff get_request_def)
  have b: "length (url_pathname (req_url (get_request (str ''/'')))) \<le> 1"
    by (simp add: get_request_def str_def)
  show ?thesis
    using a b fallback_when_no_target [of "get_request (str ''/'')" "sample_platform accepts_all (upstream_fails (Error (str ''unreachable'')))"]
    by simp
qed

text \<open>
  Claim C4. A decoded target that begins neither with \<open>http://\<close> nor with
  \<open>https://\<close> (the empty string, a relative path, another scheme) is answered with
  status 400 and the text of the invalid-target message, and nothing is fetched.
\<close>

theorem invalid_target_is_400:
  assumes "decodeURIComponent seg = Inr targetUrl"
    and "\<not> startsWith targetUrl (str ''http://'')"
    and "\<not> startsWith targetUrl (str ''https://'')"
  shows
  "(prefixMarkerSegment (url_pathname (req_url request)) seg \<longrightarrow>
      worker_handleRequest platform request =
        respond (Inr \<lparr>resp_status = 400, resp_headers = [(str ''Content-Type'', str ''text/plain;charset=UTF-8'')],
                      resp_body = Text (str ''Invalid target URL format.'')\<rparr>) \<and>
      fetched (worker_handleRequest platform request) = []) \<and>
   (barePathSegment (url_pathname (req_url request)) seg \<longrightarrow>
      binding_handleRequest platform request =
        respond (Inr \<lparr>resp_status = 400, resp_headers = [(str ''Content-Type'', str ''text/plain;charset=UTF-8'')],
                      resp_body = Text (str ''Invalid target URL format. Must start with http:// or https://'')\<rparr>) \<and>
      fetched (binding_handleRequest platform request) = [])"
proof (intro conjI impI)
  {
    assume s: "prefixMarkerSegment (url_pathname (req_url request)) seg"
    show w: "worker_handleRequest platform request =
        respond (Inr \<lparr>resp_status = 400, resp_headers = [(str ''Content-Type'', str ''text/plain;charset=UTF-8'')],
                      resp_body = Text (str ''Invalid target URL format.'')\<rparr>)"
      using s assms by (rule worker_invalid_target)
    show "fetched (worker_handleRequest platform request) = []"
      unfolding w by (simp add: respond_def)
  }
  {
    assume s: "barePathSegment (url_pathname (req_url request)) seg"
    show b: "binding_handleRequest platform request =
        respond (Inr \<lparr>resp_status = 400, resp_headers = [(str ''Content-Type'', str ''text/plain;charset=UTF-8'')],
                      resp_body = Text (str ''Invalid target URL format. Must start with http:// or https://'')\<rparr>)"
      using s assms by (rule binding_invalid_target)
    show "fetched (binding_handleRequest platform request) = []"
      unfolding b by (simp add: respond_def)
  }
qed

theorem invalid_target_is_400_witness:
  "worker_handleRequest (sample_platform accepts_all (upstream_fails (Error (str ''unreachable'')))) (get_request (str ''/proxx/ftp%3A%2F%2Fexample.com''))
     = respond (Inr \<lparr>resp_status = 400, resp_headers = [(str ''Content-Type'', str ''text/plain;charset=UTF-8'')],
                      resp_body = Text (str ''Invalid target URL format.'')\<rparr>) \<and>
   binding_handleRequest (sample_platform accepts_all (upstream_fails (Error (str ''unreachable'')))) (get_request (str ''/ftp%3A%2F%2Fexample.com''))
     = respond (Inr \<lparr>resp_status = 400, resp_headers = [(str ''Content-Type'', str ''text/plain;charset=UTF-8'')],
                      resp_body = Text (str ''Invalid target URL format. Must start with http:// or https://'')\<rparr>)"
proof -
  have d: "decodeURIComponent (str ''ftp%3A%2F%2Fexample.com'') = Inr (str ''ftp://example.com'')"
    by (simp add: eval_defs)
  have n1: "\<not> startsWith (str ''ftp://example.com'') (str ''http://'')"
    and n2: "\<not> startsWith (str ''ftp://example.com'') (str ''https://'')"
    by (simp_all add: eval_defs)
  have p: "prefixMarkerSegment (url_pathname (req_url (get_request (str ''/proxx/ftp%3A%2F%2Fexample.com'')))) (str ''ftp%3A%2F%2Fexample.com'')"
    using prefixMarkerSegment_head [of "str ''ftp%3A%2F%2Fexample.com''"] by (simp add: get_request_def str_def)
  have b: "barePathSegment (url_pathname (req_url (get_request (str ''/ftp%3A%2F%2Fexample.com'')))) (str ''ftp%3A%2F%2Fexample.com'')"
    by (simp add: barePathSegment_def get_request_def str_def)
  show ?thesis
    using p b
      invalid_target_is_400 [OF d n1 n2, of "get_request (str ''/proxx/ftp%3A%2F%2Fexample.com'')" "sample_platform accepts_all (upstream_fails (Error (str ''unreachable'')))"]
      invalid_target_is_400 [OF d n1 n2, of "get_request (str ''/ftp%3A%2F%2Fexample.com'')" "sample_platform accepts_all (upstream_fails (Error (str ''unreachable'')))"]
    by simp
qed

text \<open>
  Claim C5. When percent-decoding of the extracted segment fails (as it does on \<open>%zz\<close>,
  and on every segment with a \<open>%\<close> that two hexadecimal digits do not follow, by
  \<open>Decode_malformed_escape\<close>), the handler answers with status 400 and the text
  \<open>Invalid URL encoding.\<close>, and nothing is fetched.
\<close>

theorem decode_failure_is_400:
  assumes "decodeURIComponent seg = Inl e"
  shows
  "(prefixMarkerSegment (url_pathname (req_url request)) seg \<longrightarrow>
      worker_handleRequest platform request =
        respond (Inr \<lparr>resp_status = 400, resp_headers = [(str ''Content-Type'', str ''text/plain;charset=UTF-8'')],
                      resp_body = Text (str ''Invalid URL encoding.'')\<rparr>) \<and>
      fetched (worker_handleRequest platform request) = []) \<and>
   (barePathSegment (url_pathname (req_url request)) seg \<longrightarrow>
      binding_handleRequest platform request =
        respond (Inr \<lparr>resp_status = 400, resp_headers = [(str ''Content-Type'', str ''text/plain;charset=UTF-8'')],
                      resp_body = Text (str ''Invalid URL encoding.'')\<rparr>) \<and>
      fetched (binding_handleRequest platform request) = [])"
proof (intro conjI impI)
  {
    assume s: "prefixMarkerSegment (url_pathname (req_url request)) seg"
    show w: "worker_handleRequest platform request =
        respond (Inr \<lparr>resp_status = 400, resp_headers = [(str ''Content-Type'', str ''text/plain;charset=UTF-8'')],
                      resp_body = Text (str ''Invalid URL encoding.'')\<rparr>)"
      using s assms by (rule worker_decode_error)
    show "fetched (worker_handleRequest platform request) = []"
      unfolding w by (simp add: respond_def)
  }
  {
    assume s: "barePathSegment (url_pathname (req_url request)) seg"
    show b: "binding_handleRequest platform request =
        respond (Inr \<lparr>resp_status = 400, resp_headers = [(str ''Content-Type'', str ''text/plain;charset=UTF-8'')],
                      resp_body = Text (str ''Invalid URL encoding.'')\<rparr>)"
      using s assms by (rule binding_decode_error)
    show "fetched (binding_handleRequest platform request) = []"
      unfolding b by (simp add: respond_def)
  }
qed

theorem decode_failure_is_400_witness:
  "worker_handleRequest (sample_platform accepts_all (upstream_fails (Error (str ''unreachable'')))) (get_request (str ''/proxx/%zz''))
     = respond (Inr \<lparr>resp_status = 400, resp_headers = [(str ''Content-Type'', str ''text/plain;charset=UTF-8'')],
                      resp_body = Text (str ''Invalid URL encoding.'')\<rparr>) \<and>
   binding_handleRequest (sample_platform accepts_all (upstream_fails (Error (str ''unreachable'')))) (get_request (str ''/%zz''))
     = respond (Inr \<lparr>resp_status = 400, resp_headers = [(str ''Content-Type'', str ''text/plain;charset=UTF-8'')],
                      resp_body = Text (str ''Invalid URL encoding.'')\<rparr>)"
proof -
  have d: "decodeURIComponent (str ''%zz'') = Inl URIError"
    by (simp add: eval_defs)
  have p: "prefixMarkerSegment (url_pathname (req_url (get_request (str ''/proxx/%zz'')))) (str ''%zz'')"
    using prefixMarkerSegment_head [of "str ''%zz''"] by (simp add: get_request_def str_def)
  have b: "barePathSegment (url_pathname (req_url (get_request (str ''/%zz'')))) (str ''%zz'')"
    by (simp add: barePathSegment_def get_request_def str_def)
  show ?thesis
    using p b
      decode_failure_is_400 [OF d, of "get_request (str ''/proxx/%zz'')" "sample_platform accepts_all (upstream_fails (Error (str ''unreachable'')))"]
      decode_failure_is_400 [OF d, of "get_request (str ''/%zz'')" "sample_platform accepts_all (upstream_fails (Error (str ''unreachable'')))"]
    by simp
qed

text \<open>
  Claim C6, as amended. When the call of \<open>fetch\<close> throws, or \<open>new Response\<close> throws on
  the upstream response, the \<open>catch\<close> takes the error: the handler returns status 500 with
  the text \<open>Failed to fetch target URL: \<close> followed by the message of the error, after
  writing the error to the console. No error thrown inside the \<open>try\<close> block leaves the
  handler.
\<close>

theorem fetch_failure_is_500:
  assumes "decodeURIComponent seg = Inr targetUrl"
    and "startsWith targetUrl (str ''http://'') \<or> startsWith targetUrl (str ''https://'')"
    and "Request_error platform (proxy_init request targetUrl) = None"
    and "fetch platform (proxy_init request targetUrl) = Inl error \<or>
         (\<exists>upstream. fetch platform (proxy_init request targetUrl) = Inr upstream \<and>
            new_Response platform (BodyOf (resp_body upstream)) (resp_status upstream)
              (resp_headers upstream) = Inl error)"
  shows
  "(prefixMarkerSegment (url_pathname (req_url request)) seg \<longrightarrow>
      worker_handleRequest platform request =
        \<lparr>result =
            Inr \<lparr>resp_status = 500, resp_headers = [(str ''Content-Type'', str ''text/plain;charset=UTF-8'')],
                         resp_body = Text (str ''Failed to fetch target URL: '' @ message error)\<rparr>,
          constructed = [proxy_init request targetUrl],
          fetched = [proxy_init request targetUrl],
          console_error = [(str ''PROXX Fetch Error:'', error)]\<rparr>) \<and>
   (barePathSegment (url_pathname (req_url request)) seg \<longrightarrow>
      binding_handleRequest platform request =
        \<lparr>result =
            Inr \<lparr>resp_status = 500, resp_headers = [(str ''Content-Type'', str ''text/plain;charset=UTF-8'')],
                         resp_body = Text (str ''Failed to fetch target URL: '' @ message error)\<rparr>,
          constructed = [proxy_init request targetUrl],
          fetched = [proxy_init request targetUrl],
          console_error = [(str ''PROXX Fetch Error:'', error)]\<rparr>)"
  using assms(4)
proof (elim disjE exE conjE)
  assume f: "fetch platform (proxy_init request targetUrl) = Inl error"
  show ?thesis
    using worker_fetch_throws [OF _ assms(1-3) f] binding_fetch_throws [OF _ assms(1-3) f]
    by blast
next
  fix upstream
  assume f: "fetch platform (proxy_init request targetUrl) = Inr upstream"
    and n: "new_Response platform (BodyOf (resp_body upstream)) (resp_status upstream)
              (resp_headers upstream) = Inl error"
  show ?thesis
    using worker_rewrap_throws [OF _ assms(1-3) f n] binding_rewrap_throws [OF _ assms(1-3) f n]
    by blast
qed

theorem fetch_failure_is_500_witness:
  "result (worker_handleRequest
      (sample_platform accepts_all (upstream_fails (Error (str ''connection refused''))))
      (get_request (str ''/proxx/https%3A%2F%2Fexample.com'')))
   = Inr \<lparr>resp_status = 500,
          resp_headers = [(str ''Content-Type'', str ''text/plain;charset=UTF-8'')],
          resp_body = Text (str ''Failed to fetch target URL: connection refused'')\<rparr> \<and>
   result (binding_handleRequest
      (sample_platform accepts_all (upstream_fails (Error (str ''connection refused''))))
      (get_request (str ''/https%3A%2F%2Fexample.com'')))
   = Inr \<lparr>resp_status = 500,
          resp_headers = [(str ''Content-Type'', str ''text/plain;charset=UTF-8'')],
          resp_body = Text (str ''Failed to fetch target URL: connection refused'')\<rparr>"
proof -
  let ?P = "sample_platform accepts_all (upstream_fails (Error (str ''connection refused'')))
              :: nat list Platform"
  have d: "decodeURIComponent (str ''https%3A%2F%2Fexample.com'') = Inr (str ''https://example.com'')"
    by (simp add: eval_defs)
  have v: "startsWith (str ''https://example.com'') (str ''http://'') \<or> startsWith (str ''https://example.com'') (str ''https://'')"
    by (simp add: eval_defs)
  have p: "prefixMarkerSegment (url_pathname (req_url (get_request (str ''/proxx/https%3A%2F%2Fexample.com'')))) (str ''https%3A%2F%2Fexample.com'')"
    using prefixMarkerSegment_head [of "str ''https%3A%2F%2Fexample.com''"] by (simp add: get_request_def str_def)
  have b: "barePathSegment (url_pathname (req_url (get_request (str ''/https%3A%2F%2Fexample.com'')))) (str ''https%3A%2F%2Fexample.com'')"
    by (simp add: barePathSegment_def get_request_def str_def)
  have a: "Request_error ?P (proxy_init (get_request (str ''/proxx/https%3A%2F%2Fexample.com'')) (str ''https://example.com'')) = None"
    and a': "Request_error ?P (proxy_init (get_request (str ''/https%3A%2F%2Fexample.com'')) (str ''https://example.com'')) = None"
    by (simp_all add: sample_platform_def accepts_all_def)
  have f: "fetch ?P (proxy_init (get_request (str ''/proxx/https%3A%2F%2Fexample.com'')) (str ''https://example.com'')) = Inl (Error (str ''connection refused'')) \<or>
         (\<exists>upstream. fetch ?P (proxy_init (get_request (str ''/proxx/https%3A%2F%2Fexample.com'')) (str ''https://example.com'')) = Inr upstream \<and>
            new_Response ?P (BodyOf (resp_body upstream)) (resp_status upstream)
              (resp_headers upstream) = Inl (Error (str ''connection refused'')))"
    and f': "fetch ?P (proxy_init (get_request (str ''/https%3A%2F%2Fexample.com'')) (str ''https://example.com'')) = Inl (Error (str ''connection refused'')) \<or>
         (\<exists>upstream. fetch ?P (proxy_init (get_request (str ''/https%3A%2F%2Fexample.com'')) (str ''https://example.com'')) = Inr upstream \<and>
            new_Response ?P (BodyOf (resp_body upstream)) (resp_status upstream)
              (resp_headers upstream) = Inl (Error (str ''connection refused'')))"
    by (simp_all add: sample_platform_def upstream_fails_def)
  show ?thesis
    using p b fetch_failure_is_500 [OF d v a f] fetch_failure_is_500 [OF d v a' f']
    by (simp add: str_def)
qed

text \<open>
  The claim as first stated fails in its last clause: \<open>new Request\<close> stands before the
  \<open>try\<close> block, and the error it throws on a target that does not parse as a URL, such as
  \<open>https://\<close>, leaves the handler.
\<close>

theorem request_error_escapes:
  "worker_handleRequest
     (sample_platform (rejects_target (str ''https://'') (Error (str ''Invalid URL'')))
        (upstream_fails (Error (str ''connection refused''))))
     (get_request (str ''/proxx/https%3A%2F%2F''))
   = \<lparr>result = Inl (Error (str ''Invalid URL'')),
      constructed = [proxy_init (get_request (str ''/proxx/https%3A%2F%2F'')) (str ''https://'')],
      fetched = [], console_error = []\<rparr> \<and>
   binding_handleRequest
     (sample_platform (rejects_target (str ''https://'') (Error (str ''Invalid URL'')))
        (upstream_fails (Error (str ''connection refused''))))
     (get_request (str ''/https%3A%2F%2F''))
   = \<lparr>result = Inl (Error (str ''Invalid URL'')),
      constructed = [proxy_init (get_request (str ''/https%3A%2F%2F'')) (str ''https://'')],
      fetched = [], console_error = []\<rparr>"
  by (simp add: eval_defs)

text \<open>
  Claim C7. For a request that passes extraction, decoding and the scheme check, the handler
  builds the outbound request from the decoded target as URL, the method, the header list and
  the body of the inbound request, and redirect mode \<open>follow\<close>: these are the arguments of
  its one call of \<open>new Request\<close>. When the constructor accepts them, that request is the one
  passed to \<open>fetch\<close>; when it throws, nothing is fetched.
\<close>

theorem proxy_request_construction:
  assumes "decodeURIComponent seg = Inr targetUrl"
    and "startsWith targetUrl (str ''http://'') \<or> startsWith targetUrl (str ''https://'')"
  shows
  "(prefixMarkerSegment (url_pathname (req_url request)) seg \<longrightarrow>
      constructed (worker_handleRequest platform request) =
        [\<lparr>pr_url = targetUrl, pr_method = req_method request,
           pr_headers = req_headers request, pr_body = req_body request,
           pr_redirect = str ''follow''\<rparr>] \<and>
      (Request_error platform
          \<lparr>pr_url = targetUrl, pr_method = req_method request,
           pr_headers = req_headers request, pr_body = req_body request,
           pr_redirect = str ''follow''\<rparr> = None \<longrightarrow>
         fetched (worker_handleRequest platform request) =
           [\<lparr>pr_url = targetUrl, pr_method = req_method request,
           pr_headers = req_headers request, pr_body = req_body request,
           pr_redirect = str ''follow''\<rparr>]) \<and>
      (\<forall>e. Request_error platform
          \<lparr>pr_url = targetUrl, pr_method = req_method request,
           pr_headers = req_headers request, pr_body = req_body request,
           pr_redirect = str ''follow''\<rparr> = Some e \<longrightarrow>
         result (worker_handleRequest platform request) = Inl e \<and>
         fetched (worker_handleRequest platform request) = [])) \<and>
   (barePathSegment (url_pathname (req_url request)) seg \<longrightarrow>
      constructed (binding_handleRequest platform request) =
        [\<lparr>pr_url = targetUrl, pr_method = req_method request,
           pr_headers = req_headers request, pr_body = req_body request,
           pr_redirect = str ''follow''\<rparr>] \<and>
      (Request_error platform
          \<lparr>pr_url = targetUrl, pr_method = req_method request,
           pr_headers = req_headers request, pr_body = req_body request,
           pr_redirect = str ''follow''\<rparr> = None \<longrightarrow>
         fetched (binding_handleRequest platform request) =
           [\<lparr>pr_url = targetUrl, pr_method = req_method request,
           pr_headers = req_headers request, pr_body = req_body request,
           pr_redirect = str ''follow''\<rparr>]) \<and>
      (\<forall>e. Request_error platform
          \<lparr>pr_url = targetUrl, pr_method = req_method request,
           pr_headers = req_headers request, pr_body = req_body request,
           pr_redirect = str ''follow''\<rparr> = Some e \<longrightarrow>
         result (binding_handleRequest platform request) = Inl e \<and>
         fetched (binding_handleRequest platform request) = []))"
proof -
  have i: "\<lparr>pr_url = targetUrl, pr_method = req_method request,
           pr_headers = req_headers request, pr_body = req_body request,
           pr_redirect = str ''follow''\<rparr> = proxy_init request targetUrl"
    by (simp add: proxy_init_def)
  have fw: "fetched (worker_handleRequest platform request) = [proxy_init request targetUrl]"
    if s: "prefixMarkerSegment (url_pathname (req_url request)) seg" and a: "Request_error platform (proxy_init request targetUrl) = None"
  proof (cases "fetch platform (proxy_init request targetUrl)")
    case (Inl error)
    show ?thesis unfolding worker_fetch_throws [OF s assms a Inl] by simp
  next
    case (Inr upstream)
    show ?thesis
    proof (cases "new_Response platform (BodyOf (resp_body upstream)) (resp_status upstream)
                    (resp_headers upstream)")
      case (Inl error)
      show ?thesis unfolding worker_rewrap_throws [OF s assms a Inr Inl] by simp
    next
      case (Inr newResponse)
      show ?thesis
        unfolding worker_passes [OF s assms a \<open>fetch platform (proxy_init request targetUrl) = Inr upstream\<close> Inr]
        by simp
    qed
  qed
  have fb: "fetched (binding_handleRequest platform request) = [proxy_init request targetUrl]"
    if s: "barePathSegment (url_pathname (req_url request)) seg" and a: "Request_error platform (proxy_init request targetUrl) = None"
  proof (cases "fetch platform (proxy_init request targetUrl)")
    case (Inl error)
    show ?thesis unfolding binding_fetch_throws [OF s assms a Inl] by simp
  next
    case (Inr upstream)
    show ?thesis
    proof (cases "new_Response platform (BodyOf (resp_body upstream)) (resp_status upstream)
                    (resp_headers upstream)")
      case (Inl error)
      show ?thesis unfolding binding_rewrap_throws [OF s assms a Inr Inl] by simp
    next
      case (Inr newResponse)
      show ?thesis
        unfolding binding_passes [OF s assms a \<open>fetch platform (proxy_init request targetUrl) = Inr upstream\<close> Inr]
        by simp
    qed
  qed
  have rw: "result (worker_handleRequest platform request) = Inl e \<and>
            fetched (worker_handleRequest platform request) = []"
    if s: "prefixMarkerSegment (url_pathname (req_url request)) seg" and a: "Request_error platform (proxy_init request targetUrl) = Some e" for e
    unfolding worker_rejected [OF s assms a] by simp
  have rb: "result (binding_handleRequest platform request) = Inl e \<and>
            fetched (binding_handleRequest platform request) = []"
    if s: "barePathSegment (url_pathname (req_url request)) seg" and a: "Request_error platform (proxy_init request targetUrl) = Some e" for e
    unfolding binding_rejected [OF s assms a] by simp
  show ?thesis
    unfolding i
    using worker_constructed [OF _ assms, of request platform]
      binding_constructed [OF _ assms, of request platform] fw fb rw rb
    by blast
qed

theorem proxy_request_construction_witness:
  "constructed (worker_handleRequest
      (sample_platform accepts_all (upstream_fails (Error (str ''connection refused''))))
      \<lparr>req_url = \<lparr>url_hostname = str ''kenos.example'',
                  url_pathname = str ''/proxx/https%3A%2F%2Fexample.com%2Fpath%3Fq%3D1''\<rparr>,
       req_method = str ''POST'',
       req_headers = [(str ''Host'', str ''kenos.example''), (str ''Authorization'', str ''Bearer t'')],
       req_body = Stream [1, 2, 3 :: nat]\<rparr>)
   = [\<lparr>pr_url = str ''https://example.com/path?q=1'', pr_method = str ''POST'',
       pr_headers = [(str ''Host'', str ''kenos.example''), (str ''Authorization'', str ''Bearer t'')],
       pr_body = Stream [1, 2, 3], pr_redirect = str ''follow''\<rparr>] \<and>
   fetched (binding_handleRequest
      (sample_platform accepts_all (upstream_fails (Error (str ''connection refused''))))
      \<lparr>req_url = \<lparr>url_hostname = str ''kenos.example'',
                  url_pathname = str ''/https%3A%2F%2Fexample.com%2Fpath%3Fq%3D1''\<rparr>,
       req_method = str ''POST'',
       req_headers = [(str ''Host'', str ''kenos.example''), (str ''Authorization'', str ''Bearer t'')],
       req_body = Stream [1, 2, 3 :: nat]\<rparr>)
   = [\<lparr>pr_url = str ''https://example.com/path?q=1'', pr_method = str ''POST'',
       pr_headers = [(str ''Host'', str ''kenos.example''), (str ''Authorization'', str ''Bearer t'')],
       pr_body = Stream [1, 2, 3], pr_redirect = str ''follow''\<rparr>]"
proof -
  let ?P = "sample_platform accepts_all (upstream_fails (Error (str ''connection refused'')))
              :: nat list Platform"
  let ?w = "\<lparr>req_url = \<lparr>url_hostname = str ''kenos.example'',
                  url_pathname = str ''/proxx/https%3A%2F%2Fexample.com%2Fpath%3Fq%3D1''\<rparr>,
       req_method = str ''POST'',
       req_headers = [(str ''Host'', str ''kenos.example''), (str ''Authorization'', str ''Bearer t'')],
       req_body = Stream [1, 2, 3 :: nat]\<rparr>"
  let ?b = "\<lparr>req_url = \<lparr>url_hostname = str ''kenos.example'',
                  url_pathname = str ''/https%3A%2F%2Fexample.com%2Fpath%3Fq%3D1''\<rparr>,
       req_method = str ''POST'',
       req_headers = [(str ''Host'', str ''kenos.example''), (str ''Authorization'', str ''Bearer t'')],
       req_body = Stream [1, 2, 3 :: nat]\<rparr>"
  have d: "decodeURIComponent (str ''https%3A%2F%2Fexample.com%2Fpath%3Fq%3D1'')
             = Inr (str ''https://example.com/path?q=1'')"
    by (simp add: eval_defs)
  have v: "startsWith (str ''https://example.com/path?q=1'') (str ''http://'') \<or>
           startsWith (str ''https://example.com/path?q=1'') (str ''https://'')"
    by (simp add: eval_defs)
  have p: "prefixMarkerSegment (url_pathname (req_url ?w))
             (str ''https%3A%2F%2Fexample.com%2Fpath%3Fq%3D1'')"
    using prefixMarkerSegment_head [of "str ''https%3A%2F%2Fexample.com%2Fpath%3Fq%3D1''"]
    by (simp add: str_def)
  have b: "barePathSegment (url_pathname (req_url ?b))
             (str ''https%3A%2F%2Fexample.com%2Fpath%3Fq%3D1'')"
    by (simp add: barePathSegment_def str_def)
  have a: "Request_error ?P init = None" for init
    by (simp add: sample_platform_def accepts_all_def)
  show ?thesis
    using p b a
      proxy_request_construction [OF d v, of ?w ?P]
      proxy_request_construction [OF d v, of ?b ?P]
    by simp
qed




text \<open>
  Claim C9. The scheme check is case-sensitive: a decoded target whose first seven or eight
  code units equal \<open>http://\<close> or \<open>https://\<close> up to the case of letters, but not
  exactly, is answered with status 400 and is not forwarded.
\<close>

theorem scheme_check_is_case_sensitive:
  assumes "decodeURIComponent seg = Inr targetUrl"
    and "(byteLowercase (take 7 targetUrl) = str ''http://'' \<and> take 7 targetUrl \<noteq> str ''http://'') \<or>
         (byteLowercase (take 8 targetUrl) = str ''https://'' \<and> take 8 targetUrl \<noteq> str ''https://'')"
  shows
  "(prefixMarkerSegment (url_pathname (req_url request)) seg \<longrightarrow>
      worker_handleRequest platform request =
        respond (Inr \<lparr>resp_status = 400, resp_headers = [(str ''Content-Type'', str ''text/plain;charset=UTF-8'')],
                      resp_body = Text (str ''Invalid target URL format.'')\<rparr>) \<and>
      fetched (worker_handleRequest platform request) = []) \<and>
   (barePathSegment (url_pathname (req_url request)) seg \<longrightarrow>
      binding_handleRequest platform request =
        respond (Inr \<lparr>resp_status = 400, resp_headers = [(str ''Content-Type'', str ''text/plain;charset=UTF-8'')],
                      resp_body = Text (str ''Invalid target URL format. Must start with http:// or https://'')\<rparr>) \<and>
      fetched (binding_handleRequest platform request) = [])"
proof (intro conjI impI)
  note n = case_variant_rejected [OF assms(2)]
  {
    assume s: "prefixMarkerSegment (url_pathname (req_url request)) seg"
    show w: "worker_handleRequest platform request =
        respond (Inr \<lparr>resp_status = 400, resp_headers = [(str ''Content-Type'', str ''text/plain;charset=UTF-8'')],
                      resp_body = Text (str ''Invalid target URL format.'')\<rparr>)"
      using s assms(1) n by (rule worker_invalid_target)
    show "fetched (worker_handleRequest platform request) = []"
      unfolding w by (simp add: respond_def)
  }
  {
    assume s: "barePathSegment (url_pathname (req_url request)) seg"
    show b: "binding_handleRequest platform request =
        respond (Inr \<lparr>resp_status = 400, resp_headers = [(str ''Content-Type'', str ''text/plain;charset=UTF-8'')],
                      resp_body = Text (str ''Invalid target URL format. Must start with http:// or https://'')\<rparr>)"
      using s assms(1) n by (rule binding_invalid_target)
    show "fetched (binding_handleRequest platform request) = []"
      unfolding b by (simp add: respond_def)
  }
qed

theorem scheme_check_is_case_sensitive_witness:
  "worker_handleRequest (sample_platform accepts_all (upstream_fails (Error (str ''unreachable'')))) (get_request (str ''/proxx/HTTP%3A%2F%2Fexample.com''))
     = respond (Inr \<lparr>resp_status = 400, resp_headers = [(str ''Content-Type'', str ''text/plain;charset=UTF-8'')],
                      resp_body = Text (str ''Invalid target URL format.'')\<rparr>) \<and>
   binding_handleRequest (sample_platform accepts_all (upstream_fails (Error (str ''unreachable'')))) (get_request (str ''/Https%3A%2F%2Fexample.com''))
     = respond (Inr \<lparr>resp_status = 400, resp_headers = [(str ''Content-Type'', str ''text/plain;charset=UTF-8'')],
                      resp_body = Text (str ''Invalid target URL format. Must start with http:// or https://'')\<rparr>)"
proof -
  have d1: "decodeURIComponent (str ''HTTP%3A%2F%2Fexample.com'') = Inr (str ''HTTP://example.com'')"
    and d2: "decodeURIComponent (str ''Https%3A%2F%2Fexample.com'') = Inr (str ''Https://example.com'')"
    by (simp_all add: eval_defs)
  have c1: "(byteLowercase (take 7 (str ''HTTP://example.com'')) = str ''http://'' \<and>
             take 7 (str ''HTTP://example.com'') \<noteq> str ''http://'') \<or>
            (byteLowercase (take 8 (str ''HTTP://example.com'')) = str ''https://'' \<and>
             take 8 (str ''HTTP://example.com'') \<noteq> str ''https://'')"
    by (simp add: byteLowercase_def str_def)
  have c2: "(byteLowercase (take 7 (str ''Https://example.com'')) = str ''http://'' \<and>
             take 7 (str ''Https://example.com'') \<noteq> str ''http://'') \<or>
            (byteLowercase (take 8 (str ''Https://example.com'')) = str ''https://'' \<and>
             take 8 (str ''Https://example.com'') \<noteq> str ''https://'')"
    by (simp add: byteLowercase_def str_def)
  have p: "prefixMarkerSegment (url_pathname (req_url (get_request (str ''/proxx/HTTP%3A%2F%2Fexample.com''))))
             (str ''HTTP%3A%2F%2Fexample.com'')"
    using prefixMarkerSegment_head [of "str ''HTTP%3A%2F%2Fexample.com''"]
    by (simp add: get_request_def str_def)
  have b: "barePathSegment (url_pathname (req_url (get_request (str ''/Https%3A%2F%2Fexample.com''))))
             (str ''Https%3A%2F%2Fexample.com'')"
    by (simp add: barePathSegment_def get_request_def str_def)
  show ?thesis
    using p b
      scheme_check_is_case_sensitive [OF d1 c1, of "get_request (str ''/proxx/HTTP%3A%2F%2Fexample.com'')" "sample_platform accepts_all (upstream_fails (Error (str ''unreachable'')))"]
      scheme_check_is_case_sensitive [OF d2 c2, of "get_request (str ''/Https%3A%2F%2Fexample.com'')" "sample_platform accepts_all (upstream_fails (Error (str ''unreachable'')))"]
    by simp
qed

text \<open>
  Claim C10. In the worker with the prefix, a path with nothing after the first \<open>/proxx/\<close>
  is answered with status 400 and the invalid-target message; and whenever \<open>/proxx/\<close>
  occurs in the path, the outcome is not the fallback document.
\<close>

theorem empty_target_after_marker:
  "(prefixMarkerSegment (url_pathname (req_url request)) [] \<longrightarrow>
      worker_handleRequest platform request =
        respond (Inr \<lparr>resp_status = 400, resp_headers = [(str ''Content-Type'', str ''text/plain;charset=UTF-8'')],
                      resp_body = Text (str ''Invalid target URL format.'')\<rparr>)) \<and>
   ((\<exists>pre post. url_pathname (req_url request) = pre @ str ''/proxx/'' @ post) \<longrightarrow>
      worker_handleRequest platform request \<noteq>
        respond (worker_createRootResponse platform h))"
proof (intro conjI impI)
  assume s: "prefixMarkerSegment (url_pathname (req_url request)) []"
  have d: "decodeURIComponent [] = Inr []" by (simp add: decodeURIComponent_def)
  have n: "\<not> startsWith [] (str ''http://'')" "\<not> startsWith [] (str ''https://'')"
    by (simp_all add: startsWith_def str_def)
  show "worker_handleRequest platform request =
        respond (Inr \<lparr>resp_status = 400, resp_headers = [(str ''Content-Type'', str ''text/plain;charset=UTF-8'')],
                      resp_body = Text (str ''Invalid target URL format.'')\<rparr>)"
    using s d n by (rule worker_invalid_target)
next
  assume o: "\<exists>pre post. url_pathname (req_url request) = pre @ str ''/proxx/'' @ post"
  show "worker_handleRequest platform request \<noteq> respond (worker_createRootResponse platform h)"
  proof
    assume "worker_handleRequest platform request = respond (worker_createRootResponse platform h)"
    then have "indexOf (url_pathname (req_url request)) (str ''/proxx/'') = - 1"
      by (rule worker_fallback_only_if)
    with o show False by (simp add: indexOf_absent_iff)
  qed
qed

theorem empty_target_after_marker_witness:
  "worker_handleRequest (sample_platform accepts_all (upstream_fails (Error (str ''unreachable'')))) (get_request (str ''/proxx/''))
   = respond (Inr \<lparr>resp_status = 400, resp_headers = [(str ''Content-Type'', str ''text/plain;charset=UTF-8'')],
                      resp_body = Text (str ''Invalid target URL format.'')\<rparr>) \<and>
   worker_handleRequest (sample_platform accepts_all (upstream_fails (Error (str ''unreachable'')))) (get_request (str ''/proxx/''))
   \<noteq> respond (worker_createRootResponse (sample_platform accepts_all (upstream_fails (Error (str ''unreachable'')))) (str ''kenos.example''))"
proof -
  let ?request = "get_request (str ''/proxx/'')"
  let ?P = "sample_platform accepts_all (upstream_fails (Error (str ''unreachable''))) :: nat list Platform"
  have p: "prefixMarkerSegment (url_pathname (req_url ?request)) []"
    using prefixMarkerSegment_head [of "[]"] by (simp add: get_request_def)
  have "url_pathname (req_url ?request) = [] @ str ''/proxx/'' @ []"
    by (simp add: get_request_def)
  then have o: "\<exists>pre post. url_pathname (req_url ?request) = pre @ str ''/proxx/'' @ post"
    by blast
  from empty_target_after_marker [of ?request ?P "str ''kenos.example''"] p o
  show ?thesis by blast
qed

end
